theory Spec2Isabelle
  imports Main
begin

section \<open>Python exceptions, effects and truthiness\<close>

text \<open>
  The exceptions the modelled code can raise or let through.  \<open>SystemExit\<close> and
  \<open>KeyboardInterrupt\<close> derive from \<open>BaseException\<close> only, so a handler written
  \<^verbatim>\<open>except Exception\<close> does not catch them; every other constructor is a subclass of
  \<open>Exception\<close>.  A function that can raise returns \<open>exc + 'a\<close>, with \<open>Inl\<close> the raised
  exception.
\<close>

datatype exc =
    ImportError string
  | AssertionError string
  | RuntimeError string
  | KeyError string
  | ValueError string
  | InvalidIndexError string
  | KeyNotInContextError string
  | KeyInContextHasNoValueError string
  | OtherException string
  | SystemExit int
  | KeyboardInterrupt

fun is_Exception :: "exc \<Rightarrow> bool" where
  "is_Exception (SystemExit _) = False"
| "is_Exception KeyboardInterrupt = False"
| "is_Exception _ = True"

fun is_ImportError :: "exc \<Rightarrow> bool" where
  "is_ImportError (ImportError _) = True"
| "is_ImportError _ = False"

fun exc_str :: "exc \<Rightarrow> string" where
  "exc_str (ImportError m) = m"
| "exc_str (AssertionError m) = m"
| "exc_str (RuntimeError m) = m"
| "exc_str (KeyError m) = m"
| "exc_str (ValueError m) = m"
| "exc_str (InvalidIndexError m) = m"
| "exc_str (KeyNotInContextError m) = m"
| "exc_str (KeyInContextHasNoValueError m) = m"
| "exc_str (OtherException m) = m"
| "exc_str (SystemExit _) = []"
| "exc_str KeyboardInterrupt = []"

text \<open>Truthiness of an optional string: \<open>None\<close> and the empty string are false.\<close>

fun truthy_str :: "string option \<Rightarrow> bool" where
  "truthy_str None = False"
| "truthy_str (Some s) = (s \<noteq> [])"

definition endswith :: "string \<Rightarrow> string \<Rightarrow> bool" where
  "endswith p s = (length s \<le> length p \<and> drop (length p - length s) p = s)"

text \<open>\<^verbatim>\<open>os.path.split\<close> (POSIX): the tail is what follows the last slash, the head is the
  rest with trailing slashes removed unless it consists of slashes only.\<close>

definition os_path_split :: "string \<Rightarrow> string \<times> string" where
  "os_path_split p =
     (let tail = rev (takeWhile (\<lambda>c. c \<noteq> CHR ''/'') (rev p));
          head = take (length p - length tail) p
      in (if head \<noteq> [] \<and> \<not> list_all (\<lambda>c. c = CHR ''/'') head
          then rev (dropWhile (\<lambda>c. c = CHR ''/'') (rev head)) else head,
          tail))"

section \<open>The command line runner (activitysim/cli/run.py)\<close>

subsection \<open>State\<close>

text \<open>
  The namespace \<^verbatim>\<open>parser.parse_args()\<close> returns for the parser built by
  \<^verbatim>\<open>add_run_args(parser)\<close> (with its default \<^verbatim>\<open>multiprocess=True\<close>, as both callers in the
  sources use it).  An option that was not given is \<open>None\<close>; \<^verbatim>\<open>--multiprocess\<close> has
  \<^verbatim>\<open>default=False\<close>, \<^verbatim>\<open>const=-1\<close>, \<^verbatim>\<open>nargs="?"\<close> and \<^verbatim>\<open>type=int\<close>: its absence (the falsy
  default) is \<open>None\<close> here, the bare flag is \<open>Some (-1)\<close>, and \<^verbatim>\<open>-m N\<close> is \<open>Some N\<close>.
\<close>

record run_args =
  arg_working_dir :: "string option"
  arg_config :: "string list option"
  arg_output :: "string option"
  arg_data :: "string list option"
  arg_resume :: "string option"
  arg_pipeline :: "string option"
  arg_settings_file :: "string option"
  arg_chunk_size :: "int option"
  arg_chunk_training_mode :: "string option"
  arg_households_sample_size :: "int option"
  arg_fast :: bool
  arg_ext :: "string list option"
  arg_multiprocess :: "int option"

text \<open>The fields of \<^verbatim>\<open>whale.settings\<close> and \<^verbatim>\<open>whale.filesystem\<close> that run.py reads or
  writes.  The classes themselves are declared outside the sources at hand.\<close>

record Settings =
  multiprocess :: bool
  num_processes :: "int option"
  chunk_size :: int
  chunk_training_mode :: string
  households_sample_size :: "int option"
  resume_after :: "string option"
  memory_profile :: bool
  rotate_logs :: bool
  cleanup_trace_files_on_resume :: bool
  cleanup_pipeline_after_run :: bool
  models :: "string list"
  log_settings :: "string list"
  other_settings :: "string list option"

record FileSystem =
  configs_dir :: "string list"
  pipeline_file_name :: "string option"
  cache_dir :: "string option"

text \<open>What the runner does to the outside world, in the order it does it.\<close>

datatype event =
    Chdir string
  | SysPathInsert string
  | SysPathDel
  | ImportModule string
  | ImportAbm
  | LogException string
  | LogWarning string
  | LogInfo string
  | WarnDeprecation
  | ConfigLogger bool
  | RotateLogDirectory
  | StartMemorySidecar string
  | DeleteTraceFiles
  | DeleteOutputFiles string "string list"
  | FilterWarnings
  | CaptureWarnings
  | PrintElapsedTime "string option"
  | RunMultiprocess
  | WhaleRun "string list" "string option" "string option"
  | CleanupPipeline
  | ClosePipeline
  | LogGlobalHwm
  | ChunkConsolidateLogs
  | MemConsolidateLogs
  | TimeLoggerAggregateSummary
  | StopMemorySidecar

text \<open>
  The state the runner threads through its calls: the \<^verbatim>\<open>whale\<close> object
  (\<open>whale_context\<close> is \<^verbatim>\<open>whale.context\<close>), the files present in the output directory,
  and the trace of events so far.
\<close>

record Whale =
  whale_context :: "string \<rightharpoonup> string list"
  filesystem :: FileSystem
  settings :: Settings
  output_files :: "string list"
  events :: "event list"

text \<open>
  The collaborators of run.py that are not part of the sources at hand, taken as
  parameters: what each call returns, whether it raises (\<open>Some e\<close>), and what the three
  opaque file operations (\<^verbatim>\<open>config.rotate_log_directory\<close>, \<^verbatim>\<open>tracing.delete_trace_files\<close>
  and \<^verbatim>\<open>tracing.delete_output_files\<close> with its file type and its list of files to
  ignore) do to the files of the output directory.
\<close>

record Env =
  env_new_filesystem :: FileSystem
  env_new_settings :: Settings
  env_is_injectable_preload :: bool
  env_import_module :: "string \<Rightarrow> exc option"
  env_parse_args :: "run_args \<Rightarrow> FileSystem"
  env_read_settings_file :: "exc + string option"
  env_parse_obj :: "exc + Settings"
  env_extra_settings :: "string list"
  env_configs_mp_exists :: bool
  env_get_log_file_path :: "string \<Rightarrow> string"
  env_rotate_log_directory :: "string list \<Rightarrow> string list"
  env_delete_trace_files :: "string list \<Rightarrow> string list"
  env_delete_output_files :: "string \<Rightarrow> string list \<Rightarrow> string list \<Rightarrow> string list"
  env_run_multiprocess :: "Whale \<Rightarrow> exc option"
  env_is_open :: bool
  env_whale_run :: "Whale \<Rightarrow> exc option"
  env_cleanup_pipeline :: "exc option"
  env_close_pipeline :: "exc option"
  env_log_global_hwm :: "exc option"

definition emit :: "event \<Rightarrow> Whale \<Rightarrow> Whale" where
  "emit e w = w\<lparr>events := events w @ [e]\<rparr>"

definition emits :: "event list \<Rightarrow> Whale \<Rightarrow> Whale" where
  "emits es w = w\<lparr>events := events w @ es\<rparr>"

text \<open>An external call: it is recorded, and it returns or raises.\<close>

definition call :: "event \<Rightarrow> exc option \<Rightarrow> Whale \<Rightarrow> Whale \<times> (exc + unit)" where
  "call e r w = (emit e w, case r of None \<Rightarrow> Inr () | Some x \<Rightarrow> Inl x)"

text \<open>Sequencing: the second statement runs only if the first one returned.\<close>

definition and_then ::
  "Whale \<times> (exc + unit) \<Rightarrow> (Whale \<Rightarrow> Whale \<times> (exc + unit)) \<Rightarrow> Whale \<times> (exc + unit)" where
  "and_then r f = (case r of (w, Inl e) \<Rightarrow> (w, Inl e) | (w, Inr u) \<Rightarrow> f w)"

subsection \<open>\<^verbatim>\<open>handle_standard_args\<close>\<close>

definition INJECTABLES :: "string list" where
  "INJECTABLES =
     [''data_dir'', ''configs_dir'', ''output_dir'', ''settings_file_name'',
      ''imported_extensions'']"

definition inject_arg :: "string \<Rightarrow> string list \<Rightarrow> Whale \<Rightarrow> Whale \<times> (exc + unit)" where
  "inject_arg name v w =
     (if name \<in> set INJECTABLES
      then (w\<lparr>whale_context := (whale_context w)(name \<mapsto> v)\<rparr>, Inr ())
      else (w, Inl (AssertionError [])))"

text \<open>The loop over \<^verbatim>\<open>args.ext\<close>: each module is imported with its base path first in
  \<^verbatim>\<open>sys.path\<close>; a failure is logged and raised again, and the \<^verbatim>\<open>finally\<close> clause removes
  the path entry either way.\<close>

fun import_extensions :: "Env \<Rightarrow> string list \<Rightarrow> Whale \<Rightarrow> Whale \<times> (exc + unit)" where
  "import_extensions env [] w = (w, Inr ())"
| "import_extensions env (e # es) w =
     (let basepath = fst (os_path_split e);
          extpath = snd (os_path_split e);
          basepath = (if basepath = [] then ''.'' else basepath);
          w1 = emit (ImportModule extpath) (emit (SysPathInsert basepath) w)
      in case env_import_module env extpath of
           None \<Rightarrow> import_extensions env es (emit SysPathDel w1)
         | Some err \<Rightarrow>
             if is_ImportError err
             then (emit SysPathDel (emit (LogException ''ImportError'') w1), Inl err)
             else if is_Exception err
             then (emit SysPathDel (emit (LogException (''Error '' @ exc_str err)) w1), Inl err)
             else (emit SysPathDel w1, Inl err))"

text \<open>Lines 177 to 206: the file system object, the settings file, the cache directory
  and the settings found in the file that are no fields of the settings class.\<close>

definition load_settings :: "Env \<Rightarrow> run_args \<Rightarrow> Whale \<Rightarrow> Whale \<times> (exc + unit)" where
  "load_settings env args w =
     (let w1 = w\<lparr>filesystem := env_parse_args env args\<rparr>
      in case env_read_settings_file env of
           Inl e \<Rightarrow> (w1, Inl e)
         | Inr cache \<Rightarrow>
            (let w2 = (if truthy_str cache
                       then w1\<lparr>filesystem := (filesystem w1)\<lparr>cache_dir := cache\<rparr>\<rparr> else w1)
             in case env_parse_obj env of
                  Inl e \<Rightarrow> (w2, Inl e)
                | Inr st \<Rightarrow>
                   (let w3 = w2\<lparr>settings := st\<rparr>;
                        extra = env_extra_settings env
                    in if extra \<noteq> []
                       then (let other = (case other_settings st of None \<Rightarrow> [] | Some ks \<Rightarrow> ks);
                                 w4 = emits (WarnDeprecation
                                       # LogWarning ''Found the following unexpected settings:''
                                       # map (\<lambda>k. LogWarning ('' - '' @ k)) extra) w3
                             in (w4\<lparr>settings := (settings w4)\<lparr>other_settings := Some (other @ extra)\<rparr>\<rparr>,
                                 Inr ()))
                       else (w3, Inr ()))))"

text \<open>Lines 208 to 227: the \<^verbatim>\<open>--multiprocess\<close> argument.\<close>

definition apply_multiprocess :: "Env \<Rightarrow> run_args \<Rightarrow> Whale \<Rightarrow> Whale" where
  "apply_multiprocess env args w =
     (case arg_multiprocess args of
        None \<Rightarrow> w
      | Some n \<Rightarrow>
         if n = 0 then w
         else
          (let w1 = (if ''configs_mp'' \<notin> set (configs_dir (filesystem w))
                     then (if \<not> env_configs_mp_exists env
                           then emit (LogWarning ''could not find 'configs_mp'. skipping...'') w
                           else (emit (LogInfo ''adding 'configs_mp' to config_dir list...'') w)
                                  \<lparr>filesystem := (filesystem w)
                                     \<lparr>configs_dir := ''configs_mp'' # configs_dir (filesystem w)\<rparr>\<rparr>)
                     else w);
               w2 = w1\<lparr>settings := (settings w1)\<lparr>multiprocess := True\<rparr>\<rparr>
           in if n > 1 then w2\<lparr>settings := (settings w2)\<lparr>num_processes := Some n\<rparr>\<rparr> else w2))"

text \<open>Lines 229 to 248: the other overrides of the settings.\<close>

definition apply_overrides :: "run_args \<Rightarrow> Whale \<Rightarrow> Whale" where
  "apply_overrides args w =
     (let w1 = (case arg_chunk_size args of
                  None \<Rightarrow> w
                | Some g \<Rightarrow>
                    if g \<noteq> 0 then w\<lparr>settings := (settings w)\<lparr>chunk_size := g\<rparr>\<rparr> else w);
          w2 = (case arg_chunk_training_mode args of
                  None \<Rightarrow> w1
                | Some m \<Rightarrow> w1\<lparr>settings := (settings w1)\<lparr>chunk_training_mode := m\<rparr>\<rparr>);
          w3 = (case arg_households_sample_size args of
                  None \<Rightarrow> w2
                | Some n \<Rightarrow> w2\<lparr>settings := (settings w2)\<lparr>households_sample_size := Some n\<rparr>\<rparr>);
          w4 = (if truthy_str (arg_pipeline args)
                then w3\<lparr>filesystem := (filesystem w3)\<lparr>pipeline_file_name := arg_pipeline args\<rparr>\<rparr>
                else w3)
      in if truthy_str (arg_resume args)
         then w4\<lparr>settings := (settings w4)\<lparr>resume_after := arg_resume args\<rparr>\<rparr>
         else w4)"

definition handle_standard_args :: "Env \<Rightarrow> Whale \<Rightarrow> run_args \<Rightarrow> Whale \<times> (exc + unit)" where
  "handle_standard_args env w args =
     (let w1 = (case arg_working_dir args of
                  None \<Rightarrow> w
                | Some d \<Rightarrow> if d \<noteq> [] then emit (Chdir d) w else w);
          r1 = (case arg_ext args of
                  None \<Rightarrow> inject_arg ''imported_extensions'' [] w1
                | Some ext \<Rightarrow>
                    if ext \<noteq> []
                    then and_then (import_extensions env ext w1)
                           (inject_arg ''imported_extensions'' ext)
                    else inject_arg ''imported_extensions'' [] w1);
          r2 = and_then r1 (load_settings env args)
      in and_then r2 (\<lambda>w. (apply_overrides args (apply_multiprocess env args w), Inr ())))"

subsection \<open>\<^verbatim>\<open>cleanup_output_files\<close>\<close>

text \<open>
  \<^verbatim>\<open>tracing.delete_output_files\<close> and \<^verbatim>\<open>tracing.delete_trace_files\<close> are defined outside the
  sources at hand.  A call of either is recorded with its arguments, and what it does
  to the files of the output directory is the parameter \<open>env_delete_output_files\<close> or
  \<open>env_delete_trace_files\<close>.
\<close>

definition delete_output_files :: "Env \<Rightarrow> string \<Rightarrow> string list \<Rightarrow> Whale \<Rightarrow> Whale" where
  "delete_output_files env file_type ignore w =
     (emit (DeleteOutputFiles file_type ignore) w)
       \<lparr>output_files := env_delete_output_files env file_type ignore (output_files w)\<rparr>"

definition delete_trace_files :: "Env \<Rightarrow> Whale \<Rightarrow> Whale" where
  "delete_trace_files env w =
     (emit DeleteTraceFiles w)\<lparr>output_files := env_delete_trace_files env (output_files w)\<rparr>"

text \<open>Lines 253 to 269.\<close>

definition cleanup_output_files :: "Env \<Rightarrow> Whale \<Rightarrow> Whale" where
  "cleanup_output_files env w =
     (let w0 = delete_trace_files env w;
          csv_ignore = (if memory_profile (settings w0)
                        then [env_get_log_file_path env ''memory_profile.csv''] else []);
          w1 = delete_output_files env ''h5'' [] w0;
          w2 = delete_output_files env ''csv'' csv_ignore w1;
          w3 = delete_output_files env ''txt'' [] w2;
          w4 = delete_output_files env ''yaml'' [] w3;
          w5 = delete_output_files env ''prof'' [] w4
      in delete_output_files env ''omx'' [] w5)"

subsection \<open>\<^verbatim>\<open>run\<close>\<close>

text \<open>A fresh \<^verbatim>\<open>workflow.Whale()\<close>, next to the files found in the output directory.  Its
  settings and file system are assigned by \<open>handle_standard_args\<close> before they are read.\<close>

definition workflow_Whale :: "Env \<Rightarrow> string list \<Rightarrow> Whale" where
  "workflow_Whale env files =
     \<lparr>whale_context = Map.empty, filesystem = env_new_filesystem env,
      settings = env_new_settings env, output_files = files, events = []\<rparr>"

text \<open>Lines 283 to 307: the whale, the arguments, log rotation and the memory sidecar.
  The result is \<^verbatim>\<open>memory_sidecar_process\<close>: the log the sidecar writes, or \<open>None\<close>.\<close>

definition run_setup :: "Env \<Rightarrow> string list \<Rightarrow> run_args \<Rightarrow> Whale \<times> (exc + string option)" where
  "run_setup env files args =
     (let w0 = workflow_Whale env files;
          w1 = (if \<not> env_is_injectable_preload env then emit ImportAbm w0 else w0);
          w2 = emit (ConfigLogger True) w1
      in case handle_standard_args env w2 args of
           (w3, Inl e) \<Rightarrow> (w3, Inl e)
         | (w3, Inr u) \<Rightarrow>
            (let w4 = (if rotate_logs (settings w3)
                       then (emit RotateLogDirectory w3)
                              \<lparr>output_files := env_rotate_log_directory env (output_files w3)\<rparr>
                       else w3)
             in if memory_profile (settings w4) \<and> \<not> multiprocess (settings w4)
                then (let mem_prof_log = env_get_log_file_path env ''memory_profile.csv''
                      in (emit (StartMemorySidecar mem_prof_log) w4, Inr (Some mem_prof_log)))
                else (w4, Inr None)))"

text \<open>Lines 334 to 340: cleanup if not resuming.\<close>

definition run_cleanup :: "Env \<Rightarrow> Whale \<Rightarrow> Whale" where
  "run_cleanup env w =
     (if \<not> truthy_str (resume_after (settings w)) then cleanup_output_files env w
      else if cleanup_trace_files_on_resume (settings w) then delete_trace_files env w
      else w)"

text \<open>Lines 342 to 386: the logger, the settings and the environment written to the log
  (the values logged come from outside and are left out), and the start of the clock.\<close>

definition np_info_keys :: "string list" where
  "np_info_keys =
     [''atlas_blas_info'', ''atlas_blas_threads_info'', ''atlas_info'', ''atlas_threads_info'',
      ''blas_info'', ''blas_mkl_info'', ''blas_opt_info'', ''lapack_info'', ''lapack_mkl_info'',
      ''lapack_opt_info'', ''mkl_info'']"

definition run_logging :: "Whale \<Rightarrow> Whale" where
  "run_logging w =
     emits ([ConfigLogger False, FilterWarnings, CaptureWarnings]
            @ map (\<lambda>k. LogInfo (''SETTING '' @ k))
                ([''configs_dir'', ''settings_file_name'', ''data_dir'', ''output_dir'']
                 @ log_settings (settings w))
            @ map (\<lambda>k. LogInfo (''ENV '' @ k))
                [''MKL_NUM_THREADS'', ''OMP_NUM_THREADS'', ''OPENBLAS_NUM_THREADS'',
                 ''NUMBA_NUM_THREADS'']
            @ [PrintElapsedTime None]) w"

text \<open>Lines 283 to 386: everything \<^verbatim>\<open>run\<close> does before the \<^verbatim>\<open>try\<close> block that executes
  the steps.\<close>

definition run_prepare :: "Env \<Rightarrow> string list \<Rightarrow> run_args \<Rightarrow> Whale \<times> (exc + string option)" where
  "run_prepare env files args =
     (case run_setup env files args of
        (w, Inl e) \<Rightarrow> (w, Inl e)
      | (w, Inr memory_sidecar_process) \<Rightarrow>
          (run_logging (run_cleanup env w), Inr memory_sidecar_process))"

text \<open>Lines 389 to 416: the body of the \<^verbatim>\<open>try\<close> block, which executes the steps.\<close>

definition run_models :: "Env \<Rightarrow> string option \<Rightarrow> Whale \<Rightarrow> Whale \<times> (exc + unit)" where
  "run_models env memory_sidecar_process w =
     (if multiprocess (settings w)
      then
        (let w1 = emit (LogInfo ''run multiprocess simulation'') w;
             r1 = call RunMultiprocess (env_run_multiprocess env w1) w1;
             r2 = and_then r1 (\<lambda>w. if \<not> env_is_open env then (w, Inr ())
                                      else (w, Inl (AssertionError [])))
         in and_then r2 (\<lambda>w. if cleanup_pipeline_after_run (settings w)
                               then call CleanupPipeline (env_cleanup_pipeline env) w
                               else (w, Inr ())))
      else
        (let w1 = emit (LogInfo ''run single process simulation'') w;
             r1 = call (WhaleRun (models (settings w1)) (resume_after (settings w1))
                          memory_sidecar_process)
                       (env_whale_run env w1) w1;
             r2 = and_then r1 (\<lambda>w. if cleanup_pipeline_after_run (settings w)
                                      then call CleanupPipeline (env_cleanup_pipeline env) w
                                      else call ClosePipeline (env_close_pipeline env) w)
         in and_then r2 (call LogGlobalHwm (env_log_global_hwm env))))"

text \<open>Lines 417 to 435: the handler of the \<^verbatim>\<open>try\<close> block and the end of the run.\<close>

definition run_finish :: "string option \<Rightarrow> Whale \<times> (exc + unit) \<Rightarrow> Whale \<times> (exc + int)" where
  "run_finish memory_sidecar_process r =
     (case r of
        (w, Inl e) \<Rightarrow>
          if is_Exception e
          then (emits [PrintElapsedTime (Some ''all models until this error''),
                       LogException ''activitysim run encountered an unrecoverable error''] w,
                Inl e)
          else (w, Inl e)
      | (w, Inr u) \<Rightarrow>
          (emits ([ChunkConsolidateLogs, MemConsolidateLogs, TimeLoggerAggregateSummary,
                   PrintElapsedTime (Some ''all models'')]
                  @ (case memory_sidecar_process of
                       None \<Rightarrow> []
                     | Some p \<Rightarrow> [StopMemorySidecar])) w,
           Inr 0))"

definition run :: "Env \<Rightarrow> string list \<Rightarrow> run_args \<Rightarrow> Whale \<times> (exc + int)" where
  "run env files args =
     (case run_prepare env files args of
        (w, Inl e) \<Rightarrow> (w, Inl e)
      | (w, Inr memory_sidecar_process) \<Rightarrow>
          run_finish memory_sidecar_process (run_models env memory_sidecar_process w))"


subsection \<open>Notions used to state the properties of the runner\<close>

definition loaded_settings :: "Env \<Rightarrow> Settings \<Rightarrow> Settings" where
  "loaded_settings env st =
     (if env_extra_settings env = [] then st
      else st\<lparr>other_settings :=
                Some ((case other_settings st of None \<Rightarrow> [] | Some ks \<Rightarrow> ks) @ env_extra_settings env)\<rparr>)"

fun first_import_error :: "Env \<Rightarrow> string list \<Rightarrow> exc option" where
  "first_import_error env [] = None"
| "first_import_error env (e # es) =
     (case env_import_module env (snd (os_path_split e)) of
        None \<Rightarrow> first_import_error env es
      | Some err \<Rightarrow> Some err)"

definition standard_args_outcome :: "Env \<Rightarrow> run_args \<Rightarrow> exc + unit" where
  "standard_args_outcome env args =
     (case first_import_error env (case arg_ext args of None \<Rightarrow> [] | Some ext \<Rightarrow> ext) of
        Some e \<Rightarrow> Inl e
      | None \<Rightarrow>
         (case env_read_settings_file env of
            Inl e \<Rightarrow> Inl e
          | Inr c \<Rightarrow> (case env_parse_obj env of Inl e \<Rightarrow> Inl e | Inr st \<Rightarrow> Inr ())))"

fun is_summary :: "event \<Rightarrow> bool" where
  "is_summary ChunkConsolidateLogs = True"
| "is_summary MemConsolidateLogs = True"
| "is_summary TimeLoggerAggregateSummary = True"
| "is_summary _ = False"

fun is_step_run :: "event \<Rightarrow> bool" where
  "is_step_run RunMultiprocess = True"
| "is_step_run (WhaleRun m r p) = True"
| "is_step_run _ = False"

fun is_file_deletion :: "event \<Rightarrow> bool" where
  "is_file_deletion DeleteTraceFiles = True"
| "is_file_deletion (DeleteOutputFiles file_type ignore) = True"
| "is_file_deletion _ = False"




definition example_settings :: Settings where
  "example_settings =
     \<lparr>multiprocess = False, num_processes = None, chunk_size = 7,
      chunk_training_mode = ''disabled'', households_sample_size = Some 100,
      resume_after = None, memory_profile = False, rotate_logs = False,
      cleanup_trace_files_on_resume = False, cleanup_pipeline_after_run = False,
      models = [''initialize_landuse'', ''trip_mode_choice''],
      log_settings = [''households_sample_size''], other_settings = None\<rparr>"

definition example_filesystem :: FileSystem where
  "example_filesystem =
     \<lparr>configs_dir = [''configs''], pipeline_file_name = None, cache_dir = None\<rparr>"

definition example_env :: "Settings \<Rightarrow> exc option \<Rightarrow> Env" where
  "example_env st step_result =
     \<lparr>env_new_filesystem = example_filesystem, env_new_settings = example_settings,
      env_is_injectable_preload = False, env_import_module = (\<lambda>m. None),
      env_parse_args = (\<lambda>args. example_filesystem),
      env_read_settings_file = Inr None, env_parse_obj = Inr st,
      env_extra_settings = [], env_configs_mp_exists = False,
      env_get_log_file_path = (\<lambda>n. ''log/'' @ n),
      env_rotate_log_directory = (\<lambda>fs. fs),
      env_delete_trace_files = filter (\<lambda>p. take 6 p \<noteq> ''trace/''),
      env_delete_output_files =
        (\<lambda>file_type ignore. filter (\<lambda>p. \<not> (endswith p file_type \<and> p \<notin> set ignore))),
      env_run_multiprocess = (\<lambda>w. step_result), env_is_open = False,
      env_whale_run = (\<lambda>w. step_result), env_cleanup_pipeline = None,
      env_close_pipeline = None, env_log_global_hwm = None\<rparr>"

definition example_args :: run_args where
  "example_args =
     \<lparr>arg_working_dir = None, arg_config = None, arg_output = None, arg_data = None,
      arg_resume = None, arg_pipeline = None, arg_settings_file = None,
      arg_chunk_size = None, arg_chunk_training_mode = None,
      arg_households_sample_size = None, arg_fast = False, arg_ext = None,
      arg_multiprocess = None\<rparr>"

section \<open>Data frames\<close>

text \<open>
  The fragment of pandas the modelled code uses.  A column is an array of one dtype;
  a frame has an optional index name, the index labels (entity ids) and its columns
  by name, each as long as the index.
\<close>

datatype column = BoolCol "bool list" | IntCol "int list" | StrCol "string list"

record DataFrame =
  index_name :: "string option"
  index :: "int list"
  columns :: "(string \<times> column) list"

text \<open>\<^verbatim>\<open>pd.DataFrame()\<close>: no rows and no columns.\<close>

definition pd_DataFrame :: DataFrame where
  "pd_DataFrame = \<lparr>index_name = None, index = [], columns = []\<rparr>"

text \<open>The entries of \<open>xs\<close> at the positions where the mask is true.\<close>

fun select :: "bool list \<Rightarrow> 'a list \<Rightarrow> 'a list" where
  "select (m # ms) (x # xs) = (if m then x # select ms xs else select ms xs)"
| "select _ _ = []"

fun select_col :: "bool list \<Rightarrow> column \<Rightarrow> column" where
  "select_col keep (BoolCol bs) = BoolCol (select keep bs)"
| "select_col keep (IntCol ns) = IntCol (select keep ns)"
| "select_col keep (StrCol ss) = StrCol (select keep ss)"

text \<open>Boolean indexing \<^verbatim>\<open>df[mask]\<close>: the rows where the mask is true, all columns kept.\<close>

definition mask_rows :: "bool list \<Rightarrow> DataFrame \<Rightarrow> DataFrame" where
  "mask_rows keep df =
     df\<lparr>index := select keep (index df),
        columns := map (\<lambda>(n, c). (n, select_col keep c)) (columns df)\<rparr>"

text \<open>
  \<^verbatim>\<open>df[key]\<close> for a key that is a column (a Series): pandas masks the rows only when the
  key has the boolean dtype.  A key of any other dtype is read as a list of column
  labels: the columns so named are selected, and a label that names no column raises
  \<open>KeyError\<close> (the column labels here are strings, so no integer names one).
\<close>

definition getitem_series :: "DataFrame \<Rightarrow> column \<Rightarrow> exc + DataFrame" where
  "getitem_series df key =
     (case key of
        BoolCol keep \<Rightarrow> Inr (mask_rows keep df)
      | IntCol labels \<Rightarrow>
          if labels = [] then Inr (df\<lparr>columns := []\<rparr>)
          else Inl (KeyError ''not in index'')
      | StrCol labels \<Rightarrow>
          if list_all (\<lambda>l. map_of (columns df) l \<noteq> None) labels
          then Inr (df\<lparr>columns := map (\<lambda>l. (l, the (map_of (columns df) l))) labels\<rparr>)
          else Inl (KeyError ''not in index''))"

subsection \<open>The rows of a frame\<close>

text \<open>A frame read row by row: each row is its index label and its cells by column
  name.  This view is used to state what an operation keeps.\<close>

datatype cell = CBool bool | CInt int | CStr string

fun col_cells :: "column \<Rightarrow> cell list" where
  "col_cells (BoolCol bs) = map CBool bs"
| "col_cells (IntCol ns) = map CInt ns"
| "col_cells (StrCol ss) = map CStr ss"

fun rows_of :: "int list \<Rightarrow> (string \<times> cell list) list \<Rightarrow> (int \<times> (string \<times> cell) list) list" where
  "rows_of [] cols = []"
| "rows_of (i # ids) cols =
     (i, map (\<lambda>(n, cs). (n, hd cs)) cols) # rows_of ids (map (\<lambda>(n, cs). (n, tl cs)) cols)"

definition rows :: "DataFrame \<Rightarrow> (int \<times> (string \<times> cell) list) list" where
  "rows df = rows_of (index df) (map (\<lambda>(n, c). (n, col_cells c)) (columns df))"

definition col_length :: "column \<Rightarrow> nat" where
  "col_length c = length (col_cells c)"

text \<open>Every column is as long as the index.\<close>

definition well_formed :: "DataFrame \<Rightarrow> bool" where
  "well_formed df = list_all (\<lambda>(n, c). col_length c = length (index df)) (columns df)"

section \<open>The bad trips table (activitysim/abm/tables/trips.py)\<close>

text \<open>
  \<^verbatim>\<open>bad_trips(trips)\<close>, given the frame \<^verbatim>\<open>trips.to_frame()\<close> returns.  The function reads the
  frame and builds a new one; it assigns to nothing but its local variable.
\<close>

definition bad_trips :: "DataFrame \<Rightarrow> exc + DataFrame" where
  "bad_trips trips =
     (case map_of (columns trips) ''bad'' of
        Some bad \<Rightarrow> getitem_series trips bad
      | None \<Rightarrow> Inr pd_DataFrame)"

definition example_trips :: DataFrame where
  "example_trips =
     \<lparr>index_name = Some ''trip_id'', index = [101, 102, 103],
      columns = [(''tour_id'', IntCol [10, 10, 11]),
                 (''bad'', BoolCol [False, True, True])]\<rparr>"

section \<open>The traceable entity registry (activitysim/core/tracing.py)\<close>

text \<open>
  The registry itself is defined outside the sources at hand, which hold its tests
  (\<^verbatim>\<open>core/test/test_tracing.py\<close>).  The two operations the tests exercise are modelled
  from the specification and from what the tests show of them.
\<close>

text \<open>
  Modelled from the spec: \<^verbatim>\<open>tracing.slice_ids(df, ids, column)\<close>, which is not in the
  sources.  It keeps the rows whose value in the named column is among \<open>ids\<close>, or whose
  index label is among \<open>ids\<close> when no column is named; a column that the frame does not
  have raises \<open>RuntimeError\<close> (\<^verbatim>\<open>test_slice_ids\<close>).  The ids are integers, so a cell of
  a column that is not an integer column is never among them.
\<close>

fun isin :: "column \<Rightarrow> int list \<Rightarrow> bool list" where
  "isin (IntCol ns) ids = map (\<lambda>n. n \<in> set ids) ns"
| "isin (BoolCol bs) ids = map (\<lambda>b. False) bs"
| "isin (StrCol ss) ids = map (\<lambda>s. False) ss"

definition slice_ids :: "DataFrame \<Rightarrow> int list \<Rightarrow> string option \<Rightarrow> exc + DataFrame" where
  "slice_ids df ids col =
     (case col of
        None \<Rightarrow> Inr (mask_rows (map (\<lambda>i. i \<in> set ids) (index df)) df)
      | Some c \<Rightarrow>
         (case map_of (columns df) c of
            None \<Rightarrow>
              Inl (RuntimeError (''slice_ids slicer column '' @ [CHR 0x27] @ c @ [CHR 0x27]
                                 @ '' not in dataframe''))
          | Some cl \<Rightarrow> Inr (mask_rows (isin cl ids) df)))"

text \<open>
  The diagnostics a registration can emit.  In the tests they read:
  \<^verbatim>\<open>Can't register table 'households' without index name\<close> (\<open>NoIndexName\<close>),
  \<^verbatim>\<open>trace_hh_id 5 not in dataframe\<close> (\<open>RootNotInDataframe\<close>) and
  \<^verbatim>\<open>can't find a registered table to slice table 'tours' index name 'tour_id'\<close>
  (\<open>NoRegisteredTable\<close>).  The tests do not reach two more ways to have no join path
  to the trace roots, for which the invariant of the Trace Set (section 3) asks for a
  diagnostic as well: the root dataset registered when there is no root id to trace
  (\<open>NoRootIds\<close>), and a dataset none of whose rows joins a traced row of the dataset
  its column names (\<open>NoRowsWith\<close>, with the dataset and the column).
\<close>

datatype diagnostic =
    NotTraceable string
  | NoIndexName string
  | RootNotInDataframe int
  | NoRegisteredTable string string
  | NoRootIds string
  | NoRowsWith string string

text \<open>
  The registry: the datasets that may be traced, the dataset the trace is seeded from
  (\<^verbatim>\<open>households\<close> in the spec and in the tests) with the root ids to trace
  (\<^verbatim>\<open>trace_hh_id\<close>), the index names registered so far with their dataset, in the order
  of registration, the Trace Set (a dataset that has no entry has the empty
  sequence), and the diagnostics emitted so far.
\<close>

record Tracing =
  traceable_tables :: "string list"
  root_table :: string
  root_ids :: "int list"
  traceable_table_indexes :: "(string \<times> string) list"
  traceable_table_ids :: "string \<Rightarrow> int list"
  diagnostics :: "diagnostic list"

text \<open>
  Modelled from the spec: what a registration without a usable join path does
  (section 3, the invariant of the Trace Set): the dataset gets the empty trace set,
  a diagnostic is emitted, and nothing is raised.
\<close>

definition no_join_path :: "Tracing \<Rightarrow> string \<Rightarrow> diagnostic list \<Rightarrow> Tracing" where
  "no_join_path tr table_name ds =
     tr\<lparr>traceable_table_ids := (traceable_table_ids tr)(table_name := []),
        diagnostics := diagnostics tr @ ds\<rparr>"

text \<open>The first registered index name that is a column of the frame, with the dataset
  it is the index of.\<close>

definition find_ref_col :: "Tracing \<Rightarrow> DataFrame \<Rightarrow> (string \<times> string) option" where
  "find_ref_col tr df =
     find (\<lambda>(c, t). map_of (columns df) c \<noteq> None) (traceable_table_indexes tr)"

definition register_index :: "string \<Rightarrow> string \<Rightarrow> (string \<times> string) list \<Rightarrow> (string \<times> string) list" where
  "register_index idx_name table_name ixs =
     (if map_of ixs idx_name = None then ixs @ [(idx_name, table_name)] else ixs)"

text \<open>
  Modelled from the spec: \<^verbatim>\<open>register_traceable_table(table_name, df)\<close>, which is not in
  the sources.  The root dataset is traced at the root ids found in its index; any
  other dataset is sliced by the first of its columns that names the index of a
  registered dataset, at the ids traced there (section 3, Trace Set, and the trace
  propagation property of section 8).  A registration that traces no row has found no
  join path to the trace roots (the invariant of section 3).  The order of the checks
  and the diagnostics are those \<^verbatim>\<open>test_register_households\<close> and \<^verbatim>\<open>test_register_tours\<close>
  observe.
\<close>

definition register_traceable_table :: "Tracing \<Rightarrow> string \<Rightarrow> DataFrame \<Rightarrow> exc + Tracing" where
  "register_traceable_table tr table_name df =
     (if table_name \<notin> set (traceable_tables tr)
      then Inr (tr\<lparr>diagnostics := diagnostics tr @ [NotTraceable table_name]\<rparr>)
      else
        case index_name df of
          None \<Rightarrow> Inr (no_join_path tr table_name [NoIndexName table_name])
        | Some idx_name \<Rightarrow>
            if table_name = root_table tr
            then
              (let found = filter (\<lambda>h. h \<in> set (index df)) (root_ids tr);
                   missing = filter (\<lambda>h. h \<notin> set (index df)) (root_ids tr)
               in if found = []
                  then Inr (no_join_path tr table_name
                              (if root_ids tr = [] then [NoRootIds table_name]
                               else map RootNotInDataframe missing))
                  else Inr (tr\<lparr>traceable_table_indexes :=
                                   register_index idx_name table_name (traceable_table_indexes tr),
                                 traceable_table_ids := (traceable_table_ids tr)(table_name := found),
                                 diagnostics := diagnostics tr @ map RootNotInDataframe missing\<rparr>))
            else
              (case find_ref_col tr df of
                 None \<Rightarrow> Inr (no_join_path tr table_name [NoRegisteredTable table_name idx_name])
               | Some (ref_col, ref_table) \<Rightarrow>
                  (case slice_ids df (traceable_table_ids tr ref_table) (Some ref_col) of
                     Inl e \<Rightarrow> Inl e
                   | Inr traced \<Rightarrow>
                       if index traced = []
                       then Inr (no_join_path tr table_name [NoRowsWith table_name ref_col])
                       else
                         Inr (tr\<lparr>traceable_table_indexes :=
                                      register_index idx_name table_name (traceable_table_indexes tr),
                                    traceable_table_ids :=
                                      (traceable_table_ids tr)(table_name := index traced)\<rparr>))))"

text \<open>The registries and the frames of the tests and of the example of the spec.\<close>

definition new_tracing :: "string list \<Rightarrow> int list \<Rightarrow> Tracing" where
  "new_tracing tables roots =
     \<lparr>traceable_tables = tables, root_table = ''households'', root_ids = roots,
      traceable_table_indexes = [], traceable_table_ids = (\<lambda>t. []), diagnostics = []\<rparr>"

definition households_df :: DataFrame where
  "households_df =
     \<lparr>index_name = Some ''household_id'', index = [1, 2, 3],
      columns = [(''dzing'', StrCol [''a'', ''b'', ''c''])]\<rparr>"

definition tours_df :: "int list \<Rightarrow> DataFrame" where
  "tours_df household_ids =
     \<lparr>index_name = Some ''tour_id'', index = [10, 11, 12],
      columns = [(''zort'', StrCol [''a'', ''b'', ''c'']), (''household_id'', IntCol household_ids)]\<rparr>"




definition registered_households :: "int list \<Rightarrow> Tracing" where
  "registered_households traced =
     (new_tracing [''households'', ''tours''] traced)
       \<lparr>traceable_table_indexes := [(''household_id'', ''households'')],
        traceable_table_ids := (\<lambda>t. [])(''households'' := traced)\<rparr>"

definition slice_test_df :: DataFrame where
  "slice_test_df =
     \<lparr>index_name = None, index = [11, 12, 13],
      columns = [(''household_id'', IntCol [1, 2, 3])]\<rparr>"


section \<open>The composite log step (\<^verbatim>\<open>activitysim/workflows/steps/composite_log.py\<close>)\<close>

subsection \<open>The pypyr context\<close>

text \<open>The values the step reads from the context: booleans and strings, or \<open>None\<close>.\<close>

datatype pyval = PNone | PBool bool | PStr string

type_synonym Context = "string \<rightharpoonup> pyval"

fun truthy :: "pyval \<Rightarrow> bool" where
  "truthy PNone = False"
| "truthy (PBool b) = b"
| "truthy (PStr s) = (s \<noteq> [])"

text \<open>The text a value has inside an f-string.\<close>

fun py_str :: "pyval \<Rightarrow> string" where
  "py_str PNone = ''None''"
| "py_str (PBool b) = (if b then ''True'' else ''False'')"
| "py_str (PStr s) = s"

text \<open>\<^verbatim>\<open>context.assert_key_has_value\<close>: the key is there and its value is not \<open>None\<close>.\<close>

definition assert_key_has_value :: "Context \<Rightarrow> string \<Rightarrow> exc + unit" where
  "assert_key_has_value ctx key =
     (case ctx key of
        None \<Rightarrow> Inl (KeyNotInContextError key)
      | Some PNone \<Rightarrow> Inl (KeyInContextHasNoValueError key)
      | Some v \<Rightarrow> Inr ())"

text \<open>
  \<^verbatim>\<open>context.get_formatted(key)\<close> applies pypyr's formatting expressions to the value of
  the key.  The formatter is not part of the sources at hand and is a parameter: it
  returns the formatted value or raises.  A key that is missing raises \<open>KeyError\<close>.
\<close>

definition get_formatted :: "(pyval \<Rightarrow> exc + pyval) \<Rightarrow> Context \<Rightarrow> string \<Rightarrow> exc + pyval" where
  "get_formatted formatter ctx key =
     (case ctx key of None \<Rightarrow> Inl (KeyError key) | Some v \<Rightarrow> formatter v)"

subsection \<open>Log files and frames of text\<close>

text \<open>
  A log file as \<^verbatim>\<open>pd.read_csv\<close> reads it: its columns by header name, all of one
  length, the cells as the text written in the file.  The step computes nothing from
  the cells.  A file that cannot be parsed makes \<^verbatim>\<open>read_csv\<close> raise.
\<close>

type_synonym csv = "(string \<times> string list) list"

type_synonym file_system = "string \<rightharpoonup> exc + csv"

text \<open>A frame after \<^verbatim>\<open>set_index\<close>: the index labels and the other columns.\<close>

record log_frame =
  frame_labels :: "string list"
  frame_columns :: "(string \<times> string list) list"

definition set_index :: "string \<Rightarrow> csv \<Rightarrow> exc + log_frame" where
  "set_index name table =
     (case map_of table name of
        None \<Rightarrow> Inl (KeyError name)
      | Some labels \<Rightarrow>
          Inr \<lparr>frame_labels = labels,
               frame_columns = filter (\<lambda>(n, cells). n \<noteq> name) table\<rparr>)"

text \<open>\<^verbatim>\<open>df['seconds']\<close> and \<^verbatim>\<open>df[['rss', 'full_rss', 'uss']]\<close>: the named columns, in the
  order asked for; a name that is no column raises \<open>KeyError\<close>.\<close>

definition getitems :: "string list \<Rightarrow> log_frame \<Rightarrow> exc + log_frame" where
  "getitems names lf =
     (case find (\<lambda>n. map_of (frame_columns lf) n = None) names of
        Some n \<Rightarrow> Inl (KeyError n)
      | None \<Rightarrow>
          Inr (lf\<lparr>frame_columns := map (\<lambda>n. (n, the (map_of (frame_columns lf) n))) names\<rparr>))"

text \<open>\<^verbatim>\<open>index.duplicated()\<close> with its default \<^verbatim>\<open>keep='first'\<close>: a label is marked when it has
  occurred before.\<close>

fun duplicated_from :: "string list \<Rightarrow> string list \<Rightarrow> bool list" where
  "duplicated_from seen [] = []"
| "duplicated_from seen (x # xs) = (x \<in> set seen) # duplicated_from (x # seen) xs"

definition duplicated :: "string list \<Rightarrow> bool list" where
  "duplicated labels = duplicated_from [] labels"

text \<open>\<^verbatim>\<open>df.loc[~df.index.duplicated()]\<close>.\<close>

definition drop_duplicated :: "log_frame \<Rightarrow> log_frame" where
  "drop_duplicated lf =
     (let unmarked = map Not (duplicated (frame_labels lf))
      in \<lparr>frame_labels = select unmarked (frame_labels lf),
          frame_columns = map (\<lambda>(n, cells). (n, select unmarked cells)) (frame_columns lf)\<rparr>)"

text \<open>
  \<^verbatim>\<open>pd.concat(d, axis=1)\<close> of the dictionary \<open>d\<close> of the frames loaded per mode, in
  the order of insertion.  It has one column per mode and column of that mode, keyed
  by the mode alone when the dictionary holds Series.  When all the frames have the
  same index, that index is kept as it is, repeated labels included, and the cells
  stay in their rows.  Otherwise the frames are aligned on the union of their
  indexes, here in the order of first appearance (the order is pandas' choice and no
  property below depends on it), which pandas refuses with \<open>InvalidIndexError\<close> when a
  frame has a label twice; a cell is then the value the mode has at the label, or
  \<open>None\<close> (NaN) where the mode does not have the label.  An empty dictionary raises
  \<open>ValueError\<close>.
\<close>

record composite =
  composite_index :: "string list"
  composite_columns :: "(string list \<times> string option list) list"

fun union_labels :: "string list \<Rightarrow> string list list \<Rightarrow> string list" where
  "union_labels acc [] = acc"
| "union_labels acc (ls # rest) = union_labels (acc @ filter (\<lambda>l. l \<notin> set acc) ls) rest"

definition column_key :: "bool \<Rightarrow> string \<Rightarrow> string \<Rightarrow> string list" where
  "column_key series mode n = (if series then [mode] else [mode, n])"

definition pd_concat :: "bool \<Rightarrow> (string \<times> log_frame) list \<Rightarrow> exc + composite" where
  "pd_concat series d =
     (let indexes = map (\<lambda>(mode, lf). frame_labels lf) d
      in if d = [] then Inl (ValueError ''No objects to concatenate'')
         else if list_all (\<lambda>ix. ix = hd indexes) indexes
         then Inr \<lparr>composite_index = hd indexes,
                   composite_columns =
                     concat (map (\<lambda>(mode, lf).
                               map (\<lambda>(n, cells). (column_key series mode n, map Some cells))
                                   (frame_columns lf)) d)\<rparr>
         else if list_ex (\<lambda>ix. \<not> distinct ix) indexes
         then Inl (InvalidIndexError ''Reindexing only valid with uniquely valued Index objects'')
         else
           (let ix = union_labels [] indexes
            in Inr \<lparr>composite_index = ix,
                    composite_columns =
                      concat (map (\<lambda>(mode, lf).
                                map (\<lambda>(n, cells).
                                       (column_key series mode n,
                                        map (map_of (zip (frame_labels lf) cells)) ix))
                                    (frame_columns lf)) d)\<rparr>))"

subsection \<open>\<^verbatim>\<open>run_step\<close>\<close>

definition log_path :: "string \<Rightarrow> string \<Rightarrow> string \<Rightarrow> string" where
  "log_path archive_dir mode log_name = archive_dir @ ''/output-'' @ mode @ ''/log/'' @ log_name"

text \<open>The body of the two loops, for a file that exists: read it, index it, take the
  columns and drop the rows whose label has occurred before.\<close>

definition read_log :: "exc + csv \<Rightarrow> string \<Rightarrow> string list \<Rightarrow> exc + log_frame" where
  "read_log content index_column names =
     (case content of
        Inl e \<Rightarrow> Inl e
      | Inr table \<Rightarrow>
         (case set_index index_column table of
            Inl e \<Rightarrow> Inl e
          | Inr lf \<Rightarrow>
             (case getitems names lf of
                Inl e \<Rightarrow> Inl e
              | Inr lf' \<Rightarrow> Inr (drop_duplicated lf'))))"

text \<open>One of the two loops over \<^verbatim>\<open>compares\<close>: the dictionary it fills, in the order of
  insertion, or the first exception raised.\<close>

fun load_logs ::
  "file_system \<Rightarrow> string \<Rightarrow> string \<Rightarrow> string \<Rightarrow> string list \<Rightarrow> string list
     \<Rightarrow> exc + (string \<times> log_frame) list" where
  "load_logs fs archive_dir log_name index_column names [] = Inr []"
| "load_logs fs archive_dir log_name index_column names (mode # modes) =
     (case fs (log_path archive_dir mode log_name) of
        None \<Rightarrow> load_logs fs archive_dir log_name index_column names modes
      | Some content \<Rightarrow>
         (case read_log content index_column names of
            Inl e \<Rightarrow> Inl e
          | Inr lf \<Rightarrow>
             (case load_logs fs archive_dir log_name index_column names modes of
                Inl e \<Rightarrow> Inl e
              | Inr d \<Rightarrow> Inr ((mode, lf) # d))))"

text \<open>Lines 12 to 28: the four keys of the context and the modes to compare.  The result
  is \<^verbatim>\<open>compares\<close>, \<^verbatim>\<open>archive_dir\<close> and \<^verbatim>\<open>tag\<close>, the last two as they are spliced into the
  file names.\<close>

definition step_inputs ::
  "(pyval \<Rightarrow> exc + pyval) \<Rightarrow> Context \<Rightarrow> exc + (string list \<times> string \<times> string)" where
  "step_inputs formatter ctx =
     (case assert_key_has_value ctx ''sharrow'' of Inl e \<Rightarrow> Inl e | Inr u1 \<Rightarrow>
      case assert_key_has_value ctx ''legacy'' of Inl e \<Rightarrow> Inl e | Inr u2 \<Rightarrow>
      case assert_key_has_value ctx ''tag'' of Inl e \<Rightarrow> Inl e | Inr u3 \<Rightarrow>
      case assert_key_has_value ctx ''archive_dir'' of Inl e \<Rightarrow> Inl e | Inr u4 \<Rightarrow>
      case get_formatted formatter ctx ''sharrow'' of Inl e \<Rightarrow> Inl e | Inr sharrow \<Rightarrow>
      case get_formatted formatter ctx ''legacy'' of Inl e \<Rightarrow> Inl e | Inr legacy \<Rightarrow>
      case get_formatted formatter ctx ''tag'' of Inl e \<Rightarrow> Inl e | Inr tag \<Rightarrow>
      case get_formatted formatter ctx ''archive_dir'' of Inl e \<Rightarrow> Inl e | Inr archive_dir \<Rightarrow>
        Inr ((if truthy sharrow then [''compile'', ''sharrow''] else [])
               @ (if truthy legacy then [''legacy''] else []),
             py_str archive_dir, py_str tag))"

text \<open>
  Lines 29 to 47: the two loops and the two files written.  The result is the list
  of the files written, in the order written, with what is written, and whether the
  step returned.  The memory logs are read after the combined timing log is written,
  under other names (see \<open>log_path_is_no_output\<close> below), so both loops read the
  files as they were.
\<close>

definition combined_timing_path :: "string \<Rightarrow> string \<Rightarrow> string" where
  "combined_timing_path archive_dir tag = archive_dir @ ''/combined_timing_log-'' @ tag @ ''.csv''"

definition combined_mem_path :: "string \<Rightarrow> string \<Rightarrow> string" where
  "combined_mem_path archive_dir tag = archive_dir @ ''/combined_mem_log-'' @ tag @ ''.csv''"

text \<open>Lines 35 to 37 and 45 to 47: a dictionary that is not empty is concatenated and
  written.  The result is the file written, if any.\<close>

definition write_combined ::
  "bool \<Rightarrow> string \<Rightarrow> (string \<times> log_frame) list \<Rightarrow> exc + (string \<times> composite) list" where
  "write_combined series path d =
     (if d \<noteq> []
      then (case pd_concat series d of Inl e \<Rightarrow> Inl e | Inr c \<Rightarrow> Inr [(path, c)])
      else Inr [])"

definition composite_logs ::
  "file_system \<Rightarrow> string list \<Rightarrow> string \<Rightarrow> string
     \<Rightarrow> (string \<times> composite) list \<times> (exc + unit)" where
  "composite_logs fs compares archive_dir tag =
     (case load_logs fs archive_dir ''timing_log.csv'' ''model_name'' [''seconds''] compares of
        Inl e \<Rightarrow> ([], Inl e)
      | Inr timings \<Rightarrow>
         (case write_combined True (combined_timing_path archive_dir tag) timings of
            Inl e \<Rightarrow> ([], Inl e)
          | Inr written \<Rightarrow>
             (case load_logs fs archive_dir ''mem.csv'' ''event'' [''rss'', ''full_rss'', ''uss'']
                     compares of
                Inl e \<Rightarrow> (written, Inl e)
              | Inr mems \<Rightarrow>
                 (case write_combined False (combined_mem_path archive_dir tag) mems of
                    Inl e \<Rightarrow> (written, Inl e)
                  | Inr written_mem \<Rightarrow> (written @ written_mem, Inr ())))))"

text \<open>\<^verbatim>\<open>run_step\<close>.  The decorator \<^verbatim>\<open>error_logging\<close> and \<^verbatim>\<open>reset_progress_step\<close> are not part
  of the sources at hand; they report and do not change what the step returns,
  raises or writes.\<close>

definition run_step ::
  "(pyval \<Rightarrow> exc + pyval) \<Rightarrow> Context \<Rightarrow> file_system
     \<Rightarrow> (string \<times> composite) list \<times> (exc + unit)" where
  "run_step formatter ctx fs =
     (case step_inputs formatter ctx of
        Inl e \<Rightarrow> ([], Inl e)
      | Inr (compares, archive_dir, tag) \<Rightarrow> composite_logs fs compares archive_dir tag)"

definition log_exists :: "file_system \<Rightarrow> string \<Rightarrow> string \<Rightarrow> string list \<Rightarrow> bool" where
  "log_exists fs ad log_name modes =
     list_ex (\<lambda>mode. fs (log_path ad mode log_name) \<noteq> None) modes"

text \<open>
  What dropping the duplicated labels of a log leaves, for the columns \<open>names\<close> taken
  from \<open>table\<close> indexed by \<open>ic\<close>: the labels of the index column in the order of their
  first occurrence, each once (\<open>remdups\<close> keeps the last occurrence of an element, so
  it is applied to the reversed list), and for every column taken one cell per label,
  the cell of the first row that has the label (\<open>map_of\<close> on the rows of the file
  finds the first one).  The columns of a file are of one length.
\<close>

definition keeps_first_occurrences :: "csv \<Rightarrow> string \<Rightarrow> string list \<Rightarrow> log_frame \<Rightarrow> bool" where
  "keeps_first_occurrences table ic names lf =
     (\<exists>labels. map_of table ic = Some labels
        \<and> frame_labels lf = rev (remdups (rev labels))
        \<and> distinct (frame_labels lf) \<and> set (frame_labels lf) = set labels
        \<and> map fst (frame_columns lf) = names
        \<and> (\<forall>n cells. n \<in> set names \<and> map_of table n = Some cells
               \<and> length cells = length labels \<longrightarrow>
              (\<exists>cells'. map_of (frame_columns lf) n = Some cells'
                 \<and> length cells' = length (frame_labels lf)
                 \<and> map_of (zip (frame_labels lf) cells') = map_of (zip labels cells))))"

definition example_ctx :: Context where
  "example_ctx =
     [''sharrow'' \<mapsto> PBool True, ''legacy'' \<mapsto> PBool True, ''tag'' \<mapsto> PStr ''x'',
      ''archive_dir'' \<mapsto> PStr ''arch'']"

definition example_fs :: file_system where
  "example_fs =
     [''arch/output-sharrow/log/timing_log.csv'' \<mapsto>
        Inr [(''model_name'', [''a'', ''b'', ''a'', ''c'']),
             (''seconds'', [''1.0'', ''2.0'', ''3.0'', ''4.0''])],
      ''arch/output-legacy/log/timing_log.csv'' \<mapsto>
        Inr [(''model_name'', [''c'', ''d'']), (''seconds'', [''9.0'', ''8.0''])]]"

section \<open>The adaptive chunk planner\<close>

text \<open>
  The planner of section 4.3 of the specification has no code in the sources at hand;
  it is modelled from the words of the specification.  The sizes it works with are
  natural numbers: rows, chunks, bytes.
\<close>

datatype training_mode = Training | Adaptive | Production | Disabled

text \<open>
  Modelled from the spec: the errors of the planner, which is not in the sources
  (section 7: \<^verbatim>\<open>ChunkPlanError\<close> is the error of an invalid or missing plan, so
  \<^verbatim>\<open>InvalidChunkPlanError\<close> and \<^verbatim>\<open>MissingTrainedPlanError\<close> of section 4.3 are kinds of
  it).
\<close>

datatype plan_error_kind = NoRows | InvalidChunkPlan | MissingTrainedPlan

datatype plan_error = ChunkPlanError plan_error_kind

definition InvalidChunkPlanError :: plan_error where
  "InvalidChunkPlanError = ChunkPlanError InvalidChunkPlan"

definition MissingTrainedPlanError :: plan_error where
  "MissingTrainedPlanError = ChunkPlanError MissingTrainedPlan"

text \<open>Modelled from the spec: the Chunk Plan of section 3 (number of chunks, rows per
  chunk, training mode), which is not in the sources.\<close>

record chunk_plan =
  number_of_chunks :: nat
  rows_per_chunk :: nat
  plan_mode :: training_mode

text \<open>
  Modelled from the spec: the rows each chunk of a plan gets from a dataset of
  \<open>row_count\<close> rows (the planner is not in the sources): every chunk takes
  \<open>rows_per_chunk\<close> rows, the last ones what is left.
\<close>

definition chunk_rows :: "chunk_plan \<Rightarrow> nat \<Rightarrow> nat list" where
  "chunk_rows p row_count =
     map (\<lambda>i. min (rows_per_chunk p) (row_count - i * rows_per_chunk p))
       [0..<number_of_chunks p]"

definition has_empty_chunk :: "chunk_plan \<Rightarrow> nat \<Rightarrow> bool" where
  "has_empty_chunk p row_count = list_ex (\<lambda>k. k = 0) (chunk_rows p row_count)"

text \<open>
  Modelled from the spec: the configuration of the planner and what the size-estimate
  cache of section 6 holds for a step and a dataset (neither is in the sources): the
  memory ceiling, the minimum chunk size, the rows of the probe chunk of the training
  mode, the conservative default cost per row of the adaptive mode, the fixed safe
  default of the production mode with its strict flag, the trained cost per row and
  the cached plan (its rows per chunk).
\<close>

record planner =
  memory_ceiling :: nat
  min_chunk_size :: nat
  probe_rows :: nat
  default_row_cost :: nat
  default_rows_per_chunk :: nat
  strict_production :: bool
  trained_row_cost :: "string \<Rightarrow> string \<Rightarrow> nat option"
  trained_plan :: "string \<Rightarrow> string \<Rightarrow> nat option"

text \<open>Modelled from the spec: the plan for a given number of rows per chunk (the planner
  is not in the sources): no chunk larger than the dataset, and as many chunks as it
  takes to cover the rows.\<close>

definition plan_by_rows :: "training_mode \<Rightarrow> nat \<Rightarrow> nat \<Rightarrow> chunk_plan" where
  "plan_by_rows md row_count per_chunk =
     (let rpc = min (max 1 per_chunk) row_count
      in \<lparr>number_of_chunks = (row_count + rpc - 1) div rpc, rows_per_chunk = rpc,
          plan_mode = md\<rparr>)"

text \<open>Modelled from the spec: the plan for a requested number of chunks (the planner is
  not in the sources): that many chunks of equal size, rounded up.\<close>

definition plan_by_count :: "training_mode \<Rightarrow> nat \<Rightarrow> nat \<Rightarrow> chunk_plan" where
  "plan_by_count md row_count chunks =
     \<lparr>number_of_chunks = chunks,
      rows_per_chunk = (if chunks = 0 then 0 else (row_count + chunks - 1) div chunks),
      plan_mode = md\<rparr>"

text \<open>
  Modelled from the spec: \<^verbatim>\<open>plan(step_name, dataset_name, row_count, mode)\<close> of section
  4.3, with the chunk count a caller may request; the planner is not in the sources.
  In the order of the checks: a requested chunk count that covers no row or would
  produce an empty chunk is rejected with \<^verbatim>\<open>InvalidChunkPlanError\<close>; a dataset of 0
  rows yields a \<^verbatim>\<open>ChunkPlanError\<close>; a dataset with fewer rows than the minimum chunk
  size yields exactly one chunk; a requested chunk count is honoured; otherwise the
  mode decides: \<^verbatim>\<open>disabled\<close> returns a single chunk spanning all rows, \<^verbatim>\<open>adaptive\<close>
  computes \<^verbatim>\<open>max(1, floor(memory_ceiling / per_row_cost))\<close> rows per chunk from the
  trained cost or the conservative default (a cost of 0 bounds nothing: one chunk),
  \<^verbatim>\<open>production\<close> uses the cached plan or, without one, fails with
  \<^verbatim>\<open>MissingTrainedPlanError\<close> if the strict flag is set and falls back to the safe
  default otherwise, and \<^verbatim>\<open>training\<close> starts from the probe chunk.
\<close>

definition plan ::
  "planner \<Rightarrow> string \<Rightarrow> string \<Rightarrow> nat \<Rightarrow> training_mode \<Rightarrow> nat option
     \<Rightarrow> plan_error + chunk_plan" where
  "plan pl step_name dataset_name row_count md requested =
     (if (case requested of
            None \<Rightarrow> False
          | Some chunks \<Rightarrow>
              chunks = 0 \<or> has_empty_chunk (plan_by_count md row_count chunks) row_count)
      then Inl InvalidChunkPlanError
      else if row_count = 0 then Inl (ChunkPlanError NoRows)
      else if row_count < min_chunk_size pl then Inr (plan_by_rows md row_count row_count)
      else
        case requested of
          Some chunks \<Rightarrow> Inr (plan_by_count md row_count chunks)
        | None \<Rightarrow>
           (case md of
              Disabled \<Rightarrow> Inr (plan_by_rows md row_count row_count)
            | Adaptive \<Rightarrow>
               (let cost = (case trained_row_cost pl step_name dataset_name of
                              Some c \<Rightarrow> c
                            | None \<Rightarrow> default_row_cost pl)
                in if cost = 0 then Inr (plan_by_rows md row_count row_count)
                   else Inr (plan_by_rows md row_count (max 1 (memory_ceiling pl div cost))))
            | Production \<Rightarrow>
               (case trained_plan pl step_name dataset_name of
                  Some per_chunk \<Rightarrow>
                    if per_chunk = 0 then Inl InvalidChunkPlanError
                    else Inr (plan_by_rows md row_count per_chunk)
                | None \<Rightarrow>
                    if strict_production pl then Inl MissingTrainedPlanError
                    else Inr (plan_by_rows md row_count (default_rows_per_chunk pl)))
            | Training \<Rightarrow> Inr (plan_by_rows md row_count (probe_rows pl))))"

definition example_planner :: planner where
  "example_planner =
     \<lparr>memory_ceiling = 1000, min_chunk_size = 4, probe_rows = 2, default_row_cost = 100,
      default_rows_per_chunk = 5, strict_production = True,
      trained_row_cost = (\<lambda>s d. None), trained_plan = (\<lambda>s d. None)\<rparr>"

section \<open>Properties\<close>

subsection \<open>The command line runner\<close>

lemma emit_fields [simp]:
  "settings (emit e w) = settings w"
  "filesystem (emit e w) = filesystem w"
  "output_files (emit e w) = output_files w"
  "whale_context (emit e w) = whale_context w"
  "events (emit e w) = events w @ [e]"
  by (simp_all add: emit_def)

lemma emits_fields [simp]:
  "settings (emits es w) = settings w"
  "filesystem (emits es w) = filesystem w"
  "output_files (emits es w) = output_files w"
  "whale_context (emits es w) = whale_context w"
  "events (emits es w) = events w @ es"
  by (simp_all add: emits_def)

lemma and_then_simps [simp]:
  "and_then (w, Inl e) f = (w, Inl e)"
  "and_then (w, Inr u) f = f w"
  by (simp_all add: and_then_def)

lemma and_then_Inr:
  "and_then r f = (w', Inr u) \<Longrightarrow> \<exists>w1 u1. r = (w1, Inr u1) \<and> f w1 = (w', Inr u)"
  by (cases r; cases "snd r") (auto simp: and_then_def)

lemma snd_and_then:
  "snd (and_then r f) = (case snd r of Inl e \<Rightarrow> Inl e | Inr u \<Rightarrow> snd (f (fst r)))"
  by (cases r; cases "snd r") (auto simp: and_then_def)

lemma load_settings_snd:
  "snd (load_settings env args w) =
     (case env_read_settings_file env of
        Inl e \<Rightarrow> Inl e
      | Inr c \<Rightarrow> (case env_parse_obj env of Inl e \<Rightarrow> Inl e | Inr st \<Rightarrow> Inr ()))"
  by (simp add: load_settings_def Let_def split: sum.splits)

lemma load_settings_Inr:
  "load_settings env args w = (w', Inr u) \<Longrightarrow>
     \<exists>st. env_parse_obj env = Inr st \<and> settings w' = loaded_settings env st
        \<and> output_files w' = output_files w"
  by (auto simp: load_settings_def loaded_settings_def Let_def split: sum.splits if_splits)

lemma apply_multiprocess_settings:
  "settings (apply_multiprocess env args w) =
     (case arg_multiprocess args of
        None \<Rightarrow> settings w
      | Some n \<Rightarrow>
          if n = 0 then settings w
          else if n > 1 then (settings w)\<lparr>multiprocess := True, num_processes := Some n\<rparr>
          else (settings w)\<lparr>multiprocess := True\<rparr>)"
  by (simp add: apply_multiprocess_def Let_def split: option.splits)

lemma apply_overrides_chunk_size:
  "chunk_size (settings (apply_overrides args w)) =
     (case arg_chunk_size args of
        None \<Rightarrow> chunk_size (settings w)
      | Some g \<Rightarrow> if g \<noteq> 0 then g else chunk_size (settings w))"
  by (simp add: apply_overrides_def Let_def split: option.splits)

lemma apply_overrides_households_sample_size:
  "households_sample_size (settings (apply_overrides args w)) =
     (case arg_households_sample_size args of
        None \<Rightarrow> households_sample_size (settings w)
      | Some n \<Rightarrow> Some n)"
  by (simp add: apply_overrides_def Let_def split: option.splits)

lemma apply_overrides_multiprocess:
  "multiprocess (settings (apply_overrides args w)) = multiprocess (settings w)"
  "num_processes (settings (apply_overrides args w)) = num_processes (settings w)"
  by (simp_all add: apply_overrides_def Let_def split: option.splits)

lemma handle_standard_args_Inr:
  "handle_standard_args env w args = (w', Inr u) \<Longrightarrow>
     \<exists>w1 w2. load_settings env args w1 = (w2, Inr ())
        \<and> w' = apply_overrides args (apply_multiprocess env args w2)"
  unfolding handle_standard_args_def Let_def
  by (auto dest!: and_then_Inr) blast

lemma inject_arg_fields [simp]:
  "settings (fst (inject_arg n v w)) = settings w"
  "output_files (fst (inject_arg n v w)) = output_files w"
  "events (fst (inject_arg n v w)) = events w"
  by (simp_all add: inject_arg_def)

lemma inject_arg_imported [simp]:
  "inject_arg ''imported_extensions'' v w =
     (w\<lparr>whale_context := (whale_context w)(''imported_extensions'' \<mapsto> v)\<rparr>, Inr ())"
  by (simp add: inject_arg_def INJECTABLES_def)

lemma import_extensions_output_files [simp]:
  "output_files (fst (import_extensions env es w)) = output_files w"
  by (induction es arbitrary: w) (auto simp: Let_def split: option.splits)

lemma import_extensions_snd:
  "snd (import_extensions env es w) = snd (import_extensions env es w0)"
  by (induction es arbitrary: w w0) (auto simp: Let_def split: option.splits)

lemma import_extensions_snd_closed:
  "snd (import_extensions env es w) =
     (case first_import_error env es of None \<Rightarrow> Inr () | Some e \<Rightarrow> Inl e)"
  by (induction es arbitrary: w) (auto simp: Let_def split: option.splits)

lemma handle_standard_args_snd:
  "snd (handle_standard_args env w args) = standard_args_outcome env args"
  unfolding handle_standard_args_def standard_args_outcome_def Let_def
  by (simp add: snd_and_then load_settings_snd import_extensions_snd_closed
        split: option.splits sum.splits)

lemma standard_args_outcome_cong:
  "arg_ext args' = arg_ext args \<Longrightarrow> standard_args_outcome env args' = standard_args_outcome env args"
  by (simp add: standard_args_outcome_def)

lemma load_settings_output_files [simp]:
  "output_files (fst (load_settings env args w)) = output_files w"
  by (simp add: load_settings_def Let_def split: sum.splits)

lemma apply_multiprocess_output_files [simp]:
  "output_files (apply_multiprocess env args w) = output_files w"
  by (simp add: apply_multiprocess_def Let_def split: option.splits)

lemma apply_overrides_output_files [simp]:
  "output_files (apply_overrides args w) = output_files w"
  by (simp add: apply_overrides_def Let_def split: option.splits)

lemma fst_and_then_output_files:
  "(\<And>w. output_files (fst (f w)) = output_files w) \<Longrightarrow>
     output_files (fst (and_then r f)) = output_files (fst r)"
  by (cases r; cases "snd r") (auto simp: and_then_def)

lemma handle_standard_args_output_files:
  "output_files (fst (handle_standard_args env w args)) = output_files w"
  unfolding handle_standard_args_def Let_def
  by (simp add: fst_and_then_output_files split: option.splits)

text \<open>No phase before the end of the run emits one of the end-of-run summaries.\<close>

lemma and_then_summary:
  "(\<And>w. filter is_summary (events (fst (f w))) = filter is_summary (events w)) \<Longrightarrow>
     filter is_summary (events (fst (and_then r f))) = filter is_summary (events (fst r))"
  by (cases r; cases "snd r") (auto simp: and_then_def)

lemma import_extensions_summary [simp]:
  "filter is_summary (events (fst (import_extensions env es w))) = filter is_summary (events w)"
  by (induction es arbitrary: w) (auto simp: Let_def split: option.splits)

lemma load_settings_summary [simp]:
  "filter is_summary (events (fst (load_settings env args w))) = filter is_summary (events w)"
  by (simp add: load_settings_def Let_def o_def split: sum.splits)

lemma apply_multiprocess_events [simp]:
  "filter is_summary (events (apply_multiprocess env args w)) = filter is_summary (events w)"
  by (simp add: apply_multiprocess_def Let_def split: option.splits)

lemma apply_overrides_events [simp]:
  "events (apply_overrides args w) = events w"
  by (simp add: apply_overrides_def Let_def split: option.splits)

lemma handle_standard_args_summary:
  "filter is_summary (events (fst (handle_standard_args env w args))) = filter is_summary (events w)"
  unfolding handle_standard_args_def Let_def
  by (simp add: and_then_summary split: option.splits)

lemma delete_fields [simp]:
  "settings (delete_output_files env t ig w) = settings w"
  "events (delete_output_files env t ig w) = events w @ [DeleteOutputFiles t ig]"
  "output_files (delete_output_files env t ig w) = env_delete_output_files env t ig (output_files w)"
  "settings (delete_trace_files env w) = settings w"
  "events (delete_trace_files env w) = events w @ [DeleteTraceFiles]"
  "output_files (delete_trace_files env w) = env_delete_trace_files env (output_files w)"
  by (simp_all add: delete_output_files_def delete_trace_files_def)

lemma cleanup_output_files_fields [simp]:
  "settings (cleanup_output_files env w) = settings w"
  "filter is_summary (events (cleanup_output_files env w)) = filter is_summary (events w)"
  by (simp_all add: cleanup_output_files_def Let_def)

lemma run_cleanup_fields [simp]:
  "settings (run_cleanup env w) = settings w"
  "filter is_summary (events (run_cleanup env w)) = filter is_summary (events w)"
  by (simp_all add: run_cleanup_def)

lemma run_logging_fields [simp]:
  "settings (run_logging w) = settings w"
  "output_files (run_logging w) = output_files w"
  "filter is_summary (events (run_logging w)) = filter is_summary (events w)"
  by (simp_all add: run_logging_def o_def)

lemma run_setup_Inr:
  assumes "run_setup env files args = (w, Inr sc)"
  shows "filter is_summary (events w) = []"
    and "output_files w = (if rotate_logs (settings w) then env_rotate_log_directory env files else files)"
    and "sc \<noteq> None \<longleftrightarrow> memory_profile (settings w) \<and> \<not> multiprocess (settings w)"
proof -
  let ?w2 = "emit (ConfigLogger True)
               (if \<not> env_is_injectable_preload env then emit ImportAbm (workflow_Whale env files)
                else workflow_Whale env files)"
  obtain w3 r where h: "handle_standard_args env ?w2 args = (w3, r)"
    by (cases "handle_standard_args env ?w2 args")
  from assms h obtain u where r: "r = Inr u"
    by (auto simp: run_setup_def Let_def split: sum.splits)
  have f: "output_files w3 = files"
    using handle_standard_args_output_files [of env ?w2 args] h by (simp add: workflow_Whale_def)
  have e: "filter is_summary (events w3) = []"
    using handle_standard_args_summary [of env ?w2 args] h by (simp add: workflow_Whale_def)
  show "filter is_summary (events w) = []"
    using assms h r e by (auto simp: run_setup_def Let_def split: if_splits)
  show "output_files w = (if rotate_logs (settings w) then env_rotate_log_directory env files else files)"
    using assms h r f by (auto simp: run_setup_def Let_def split: if_splits)
  show "sc \<noteq> None \<longleftrightarrow> memory_profile (settings w) \<and> \<not> multiprocess (settings w)"
    using assms h r by (auto simp: run_setup_def Let_def split: if_splits)
qed

lemma run_prepare_Inr:
  "run_prepare env files args = (w, Inr sc) \<Longrightarrow>
     \<exists>w0. run_setup env files args = (w0, Inr sc) \<and> w = run_logging (run_cleanup env w0)"
  by (auto simp: run_prepare_def split: prod.splits sum.splits)

lemma run_prepare_summary:
  "run_prepare env files args = (w, Inr sc) \<Longrightarrow> filter is_summary (events w) = []"
  by (auto dest!: run_prepare_Inr simp: run_setup_Inr(1))

lemma call_simps [simp]:
  "call e None w = (emit e w, Inr ())"
  "call e (Some x) w = (emit e w, Inl x)"
  by (simp_all add: call_def)

lemma call_summary:
  "\<not> is_summary e \<Longrightarrow> filter is_summary (events (fst (call e r w))) = filter is_summary (events w)"
  by (simp add: call_def)

lemma run_models_summary:
  "filter is_summary (events (fst (run_models env sc w))) = filter is_summary (events w)"
  unfolding run_models_def Let_def
  by (simp add: and_then_summary call_summary)

lemma run_models_step_run:
  "list_ex is_step_run (events (fst (run_models env sc w)))"
  unfolding run_models_def Let_def
  by (auto simp: call_def and_then_def split: option.splits)



text \<open>
  Claim C6.  When the run has reached the \<^verbatim>\<open>try\<close> block and the block returns without
  raising, \<open>run\<close> returns 0; the events of the whole run are those up to the end of
  the block, which include the call that executes the steps, followed by the chunk
  log consolidation, the memory log consolidation, the aggregate timing summary and
  the total elapsed time (and the stop of the memory sidecar if one was started); and
  each of the three summaries occurs exactly once in the run.
\<close>

theorem run_success_consolidates_once_and_returns_0:
  assumes "run_prepare env files args = (w, Inr sc)"
    and "run_models env sc w = (w', Inr u)"
  shows "snd (run env files args) = Inr 0
         \<and> events (fst (run env files args)) =
             events w' @ [ChunkConsolidateLogs, MemConsolidateLogs, TimeLoggerAggregateSummary,
                          PrintElapsedTime (Some ''all models'')]
                       @ (case sc of None \<Rightarrow> [] | Some p \<Rightarrow> [StopMemorySidecar])
         \<and> list_ex is_step_run (events w')
         \<and> filter is_summary (events (fst (run env files args))) =
             [ChunkConsolidateLogs, MemConsolidateLogs, TimeLoggerAggregateSummary]"
proof -
  have r: "run env files args =
           (emits ([ChunkConsolidateLogs, MemConsolidateLogs, TimeLoggerAggregateSummary,
                    PrintElapsedTime (Some ''all models'')]
                   @ (case sc of None \<Rightarrow> [] | Some p \<Rightarrow> [StopMemorySidecar])) w',
            Inr 0)"
    using assms by (simp add: run_def run_finish_def)
  have n: "filter is_summary (events w') = []"
    using run_models_summary [of env sc w] run_prepare_summary [OF assms(1)] assms(2) by simp
  have s: "list_ex is_step_run (events w')"
    using run_models_step_run [of env sc w] assms(2) by simp
  show ?thesis
    using r n s by (simp split: option.splits)
qed

theorem run_success_consolidates_once_and_returns_0_witness:
  "snd (run (example_env example_settings None) [''pipeline.h5''] example_args) = Inr 0
   \<and> filter is_summary (events (fst (run (example_env example_settings None) [''pipeline.h5'']
         example_args))) = [ChunkConsolidateLogs, MemConsolidateLogs, TimeLoggerAggregateSummary]"
proof -
  let ?env = "example_env example_settings None"
  let ?w = "fst (run_prepare ?env [''pipeline.h5''] example_args)"
  have "snd (run_prepare ?env [''pipeline.h5''] example_args) = Inr None"
    by code_simp
  then have p: "run_prepare ?env [''pipeline.h5''] example_args = (?w, Inr None)"
    by (metis prod.collapse)
  have "snd (run_models ?env None ?w) = Inr ()"
    by code_simp
  then have m: "run_models ?env None ?w = (fst (run_models ?env None ?w), Inr ())"
    by (metis prod.collapse)
  note t = run_success_consolidates_once_and_returns_0 [OF p m]
  show ?thesis
    by (rule conjI [OF t [THEN conjunct1] t [THEN conjunct2, THEN conjunct2, THEN conjunct2]])
qed

lemma handle_standard_args_settings:
  assumes "handle_standard_args env w args = (w', Inr u)" and "env_parse_obj env = Inr st"
  shows "chunk_size (settings w') =
           (case arg_chunk_size args of
              None \<Rightarrow> chunk_size st
            | Some g \<Rightarrow> if g \<noteq> 0 then g else chunk_size st)"
    and "households_sample_size (settings w') =
           (case arg_households_sample_size args of
              None \<Rightarrow> households_sample_size st
            | Some n \<Rightarrow> Some n)"
    and "multiprocess (settings w') =
           (case arg_multiprocess args of
              None \<Rightarrow> multiprocess st
            | Some n \<Rightarrow> n \<noteq> 0 \<or> multiprocess st)"
    and "num_processes (settings w') =
           (case arg_multiprocess args of
              None \<Rightarrow> num_processes st
            | Some n \<Rightarrow> if n > 1 then Some n else num_processes st)"
proof -
  from handle_standard_args_Inr [OF assms(1)] obtain w1 w2 where
    l: "load_settings env args w1 = (w2, Inr ())"
    and w': "w' = apply_overrides args (apply_multiprocess env args w2)"
    by blast
  from load_settings_Inr [OF l] assms(2) have s: "settings w2 = loaded_settings env st"
    by simp
  show "chunk_size (settings w') =
           (case arg_chunk_size args of
              None \<Rightarrow> chunk_size st
            | Some g \<Rightarrow> if g \<noteq> 0 then g else chunk_size st)"
    by (simp add: w' apply_overrides_chunk_size apply_multiprocess_settings s loaded_settings_def
          split: option.splits)
  show "households_sample_size (settings w') =
           (case arg_households_sample_size args of
              None \<Rightarrow> households_sample_size st
            | Some n \<Rightarrow> Some n)"
    by (simp add: w' apply_overrides_households_sample_size apply_multiprocess_settings s
          loaded_settings_def split: option.splits)
  show "multiprocess (settings w') =
           (case arg_multiprocess args of
              None \<Rightarrow> multiprocess st
            | Some n \<Rightarrow> n \<noteq> 0 \<or> multiprocess st)"
    by (simp add: w' apply_overrides_multiprocess apply_multiprocess_settings s loaded_settings_def
          split: option.splits)
  show "num_processes (settings w') =
           (case arg_multiprocess args of
              None \<Rightarrow> num_processes st
            | Some n \<Rightarrow> if n > 1 then Some n else num_processes st)"
    by (simp add: w' apply_overrides_multiprocess apply_multiprocess_settings s loaded_settings_def
          split: option.splits)
qed

text \<open>
  Claim C8.  Whenever \<open>handle_standard_args\<close> returns, with \<open>st\<close> the settings read from
  the settings file: a chunk size of 0 on the command line leaves \<open>chunk_size\<close> at the
  value of the settings file, a nonzero chunk size replaces it, and a households
  sample size of 0 does replace the value of the settings file.  The zero chunk size
  is not rejected either: the function returns or raises with it exactly as it does
  without the argument.
\<close>
theorem chunk_size_zero_dropped_sample_size_zero_applied:
  assumes "handle_standard_args env w args = (w', Inr u)" and "env_parse_obj env = Inr st"
  shows "(arg_chunk_size args = Some 0 \<longrightarrow> chunk_size (settings w') = chunk_size st)
       \<and> (\<forall>g. arg_chunk_size args = Some g \<and> g \<noteq> 0 \<longrightarrow> chunk_size (settings w') = g)
       \<and> (arg_households_sample_size args = Some 0 \<longrightarrow>
            households_sample_size (settings w') = Some 0)
       \<and> snd (handle_standard_args env w (args\<lparr>arg_chunk_size := Some 0\<rparr>))
           = snd (handle_standard_args env w (args\<lparr>arg_chunk_size := None\<rparr>))"
  using handle_standard_args_settings(1,2) [OF assms]
  by (auto simp: handle_standard_args_snd standard_args_outcome_def)

text \<open>
  Claim C3, as amended.  \<open>handle_standard_args\<close> validates neither the worker count nor
  the chunk budget: whatever values \<open>m\<close> and \<open>g\<close> the two arguments are given, it
  returns or raises exactly as it does for any other values.  When it returns, a
  nonzero worker count (a negative one included) has turned \<open>multiprocess\<close> on and has
  replaced \<open>num_processes\<close> only if it is greater than 1, a worker count of 0 has
  changed nothing, a nonzero chunk budget (a negative one included) has become
  \<open>chunk_size\<close>, and a chunk budget of 0 has changed nothing.
\<close>
theorem handle_standard_args_validates_nothing:
  "snd (handle_standard_args env w (args\<lparr>arg_multiprocess := m, arg_chunk_size := g\<rparr>))
     = snd (handle_standard_args env w args)
   \<and> (\<forall>w' u st. handle_standard_args env w args = (w', Inr u) \<and> env_parse_obj env = Inr st \<longrightarrow>
         multiprocess (settings w') =
           (case arg_multiprocess args of
              None \<Rightarrow> multiprocess st
            | Some n \<Rightarrow> n \<noteq> 0 \<or> multiprocess st)
       \<and> num_processes (settings w') =
           (case arg_multiprocess args of
              None \<Rightarrow> num_processes st
            | Some n \<Rightarrow> if n > 1 then Some n else num_processes st)
       \<and> chunk_size (settings w') =
           (case arg_chunk_size args of
              None \<Rightarrow> chunk_size st
            | Some g \<Rightarrow> if g \<noteq> 0 then g else chunk_size st))"
proof -
  have a: "snd (handle_standard_args env w (args\<lparr>arg_multiprocess := m, arg_chunk_size := g\<rparr>))
     = snd (handle_standard_args env w args)"
    by (simp add: handle_standard_args_snd standard_args_outcome_def)
  have b: "\<And>w' u st. handle_standard_args env w args = (w', Inr u) \<Longrightarrow> env_parse_obj env = Inr st \<Longrightarrow>
         multiprocess (settings w') =
           (case arg_multiprocess args of
              None \<Rightarrow> multiprocess st
            | Some n \<Rightarrow> n \<noteq> 0 \<or> multiprocess st)
       \<and> num_processes (settings w') =
           (case arg_multiprocess args of
              None \<Rightarrow> num_processes st
            | Some n \<Rightarrow> if n > 1 then Some n else num_processes st)
       \<and> chunk_size (settings w') =
           (case arg_chunk_size args of
              None \<Rightarrow> chunk_size st
            | Some g \<Rightarrow> if g \<noteq> 0 then g else chunk_size st)"
    using handle_standard_args_settings(1,3,4) by blast
  show ?thesis
    using a b by blast
qed

theorem chunk_size_zero_dropped_sample_size_zero_applied_witness:
  "chunk_size (settings (fst (handle_standard_args (example_env example_settings None)
       (workflow_Whale (example_env example_settings None) [])
       (example_args\<lparr>arg_chunk_size := Some 0, arg_households_sample_size := Some 0\<rparr>)))) = 7
   \<and> households_sample_size (settings (fst (handle_standard_args
       (example_env example_settings None)
       (workflow_Whale (example_env example_settings None) [])
       (example_args\<lparr>arg_chunk_size := Some 0, arg_households_sample_size := Some 0\<rparr>)))) = Some 0
   \<and> chunk_size (settings (fst (handle_standard_args (example_env example_settings None)
       (workflow_Whale (example_env example_settings None) [])
       (example_args\<lparr>arg_chunk_size := Some 500\<rparr>)))) = 500"
proof -
  let ?env = "example_env example_settings None"
  let ?w = "workflow_Whale ?env []"
  let ?a = "example_args\<lparr>arg_chunk_size := Some 0, arg_households_sample_size := Some 0\<rparr>"
  let ?b = "example_args\<lparr>arg_chunk_size := Some 500\<rparr>"
  have st: "env_parse_obj ?env = Inr example_settings"
    by (simp add: example_env_def)
  have "snd (handle_standard_args ?env ?w ?a) = Inr ()"
    by code_simp
  then have ha: "handle_standard_args ?env ?w ?a = (fst (handle_standard_args ?env ?w ?a), Inr ())"
    by (metis prod.collapse)
  have "snd (handle_standard_args ?env ?w ?b) = Inr ()"
    by code_simp
  then have hb: "handle_standard_args ?env ?w ?b = (fst (handle_standard_args ?env ?w ?b), Inr ())"
    by (metis prod.collapse)
  note ta = chunk_size_zero_dropped_sample_size_zero_applied [OF ha st]
  note tb = chunk_size_zero_dropped_sample_size_zero_applied [OF hb st]
  have a0: "arg_chunk_size ?a = Some 0" and a1: "arg_households_sample_size ?a = Some 0"
    by simp_all
  have b0: "arg_chunk_size ?b = Some 500 \<and> (500::int) \<noteq> 0"
    by simp
  have c: "chunk_size example_settings = 7"
    by (simp add: example_settings_def)
  have 1: "chunk_size (settings (fst (handle_standard_args ?env ?w ?a))) = 7"
    using ta [THEN conjunct1, rule_format, OF a0] c by simp
  have 2: "households_sample_size (settings (fst (handle_standard_args ?env ?w ?a))) = Some 0"
    using ta [THEN conjunct2, THEN conjunct2, THEN conjunct1, rule_format, OF a1] .
  have 3: "chunk_size (settings (fst (handle_standard_args ?env ?w ?b))) = 500"
    using tb [THEN conjunct2, THEN conjunct1, rule_format, OF b0] .
  show ?thesis
    using 1 2 3 by blast
qed

theorem handle_standard_args_validates_nothing_witness:
  "snd (handle_standard_args (example_env example_settings None)
         (workflow_Whale (example_env example_settings None) [])
         (example_args\<lparr>arg_multiprocess := Some (- 3), arg_chunk_size := Some (- 5)\<rparr>))
     = snd (handle_standard_args (example_env example_settings None)
         (workflow_Whale (example_env example_settings None) []) example_args)
   \<and> multiprocess (settings (fst (handle_standard_args (example_env example_settings None)
         (workflow_Whale (example_env example_settings None) [])
         (example_args\<lparr>arg_multiprocess := Some (- 3), arg_chunk_size := Some (- 5)\<rparr>))))
   \<and> num_processes (settings (fst (handle_standard_args (example_env example_settings None)
         (workflow_Whale (example_env example_settings None) [])
         (example_args\<lparr>arg_multiprocess := Some (- 3), arg_chunk_size := Some (- 5)\<rparr>)))) = None
   \<and> chunk_size (settings (fst (handle_standard_args (example_env example_settings None)
         (workflow_Whale (example_env example_settings None) [])
         (example_args\<lparr>arg_multiprocess := Some (- 3), arg_chunk_size := Some (- 5)\<rparr>)))) = - 5"
proof -
  let ?env = "example_env example_settings None"
  let ?w = "workflow_Whale ?env []"
  let ?a = "example_args\<lparr>arg_multiprocess := Some (- 3), arg_chunk_size := Some (- 5)\<rparr>"
  have st: "env_parse_obj ?env = Inr example_settings"
    by (simp add: example_env_def)
  have "snd (handle_standard_args ?env ?w ?a) = Inr ()"
    by code_simp
  then have ha: "handle_standard_args ?env ?w ?a = (fst (handle_standard_args ?env ?w ?a), Inr ())"
    by (metis prod.collapse)
  have 1: "snd (handle_standard_args ?env ?w ?a) = snd (handle_standard_args ?env ?w example_args)"
    using handle_standard_args_validates_nothing
      [where env = ?env and w = ?w and m = "Some (- 3)" and g = "Some (- 5)" and args = example_args,
       THEN conjunct1] .
  note t = handle_standard_args_validates_nothing
      [where env = ?env and w = ?w and m = None and g = None and args = ?a, THEN conjunct2,
       rule_format, OF conjI [OF ha st]]
  have 2: "multiprocess (settings (fst (handle_standard_args ?env ?w ?a)))"
    using t [THEN conjunct1] by simp
  have 3: "num_processes (settings (fst (handle_standard_args ?env ?w ?a))) = None"
    using t [THEN conjunct2, THEN conjunct1] by (simp add: example_settings_def)
  have 4: "chunk_size (settings (fst (handle_standard_args ?env ?w ?a))) = - 5"
    using t [THEN conjunct2, THEN conjunct2] by simp
  show ?thesis
    using 1 2 3 4 by blast
qed

theorem configuration_not_validated_counterexample:
  "snd (run (example_env example_settings None) []
         (example_args\<lparr>arg_multiprocess := Some (- 3), arg_chunk_size := Some (- 5)\<rparr>)) = Inr 0
   \<and> RunMultiprocess \<in> set (events (fst (run (example_env example_settings None) []
         (example_args\<lparr>arg_multiprocess := Some (- 3), arg_chunk_size := Some (- 5)\<rparr>))))
   \<and> chunk_size (settings (fst (run (example_env example_settings None) []
         (example_args\<lparr>arg_multiprocess := Some (- 3), arg_chunk_size := Some (- 5)\<rparr>)))) = - 5
   \<and> snd (run (example_env example_settings None) []
         (example_args\<lparr>arg_multiprocess := Some 0, arg_chunk_size := Some 0\<rparr>)) = Inr 0
   \<and> list_ex is_step_run (events (fst (run (example_env example_settings None) []
         (example_args\<lparr>arg_multiprocess := Some 0, arg_chunk_size := Some 0\<rparr>))))"
  by code_simp

subsection \<open>Data frames and the bad trips table\<close>

lemma select_length_le: "length (select keep xs) \<le> length xs"
  by (induction keep xs rule: select.induct) auto

lemma select_map: "select keep (map f xs) = map f (select keep xs)"
  by (induction keep xs rule: select.induct) auto

lemma col_cells_select_col: "col_cells (select_col keep c) = select keep (col_cells c)"
  by (cases c) (simp_all add: select_map)

lemma rows_of_select:
  "list_all (\<lambda>(n, cs). length cs = length ids) cols \<Longrightarrow>
     rows_of (select keep ids) (map (\<lambda>(n, cs). (n, select keep cs)) cols)
       = select keep (rows_of ids cols)"
proof (induction keep ids arbitrary: cols rule: select.induct)
  case (1 m ms i ids)
  have tl: "list_all (\<lambda>(n, cs). length cs = length ids) (map (\<lambda>(n, cs). (n, tl cs)) cols)"
    using "1.prems" by (auto simp: list_all_iff)
  have ne: "\<forall>(n, cs) \<in> set cols. cs \<noteq> []"
    using "1.prems" by (auto simp: list_all_iff)
  have h: "map (\<lambda>(n, cs). (n, hd cs)) (map (\<lambda>(n, cs). (n, select (True # ms) cs)) cols)
            = map (\<lambda>(n, cs). (n, hd cs)) cols"
    using ne by (auto simp: neq_Nil_conv)
  have t: "map (\<lambda>(n, cs). (n, tl cs)) (map (\<lambda>(n, cs). (n, select (True # ms) cs)) cols)
            = map (\<lambda>(n, cs). (n, select ms cs)) (map (\<lambda>(n, cs). (n, tl cs)) cols)"
    using ne by (auto simp: neq_Nil_conv)
  have f: "map (\<lambda>(n, cs). (n, select (False # ms) cs)) cols
            = map (\<lambda>(n, cs). (n, select ms cs)) (map (\<lambda>(n, cs). (n, tl cs)) cols)"
    using ne by (auto simp: neq_Nil_conv)
  show ?case
  proof (cases m)
    case True
    show ?thesis
      using True "1.IH"(1) [OF True tl] by (simp add: h t del: map_map)
  next
    case False
    show ?thesis
      using False "1.IH"(2) [OF False tl] by (simp add: f del: map_map)
  qed
qed simp_all

lemma rows_mask_rows:
  "well_formed df \<Longrightarrow> rows (mask_rows keep df) = select keep (rows df)"
  unfolding rows_def mask_rows_def well_formed_def
  using rows_of_select [of "index df" "map (\<lambda>(n, c). (n, col_cells c)) (columns df)" keep]
  by (simp add: list_all_iff col_length_def col_cells_select_col o_def case_prod_unfold)

lemma select_rows_of_filter:
  "map_of cols b = Some (map CBool keep) \<Longrightarrow> length keep = length ids \<Longrightarrow>
     select keep (rows_of ids cols)
       = filter (\<lambda>(i, cells). map_of cells b = Some (CBool True)) (rows_of ids cols)"
proof (induction ids arbitrary: keep cols)
  case Nil
  then show ?case by simp
next
  case (Cons i ids)
  from Cons.prems(2) obtain k ks where keep: "keep = k # ks" and len: "length ks = length ids"
    by (cases keep) auto
  have hd: "map_of (map (\<lambda>(n, cs). (n, hd cs)) cols) b = Some (CBool k)"
    using Cons.prems(1) keep by (simp add: map_of_map)
  have tl: "map_of (map (\<lambda>(n, cs). (n, tl cs)) cols) b = Some (map CBool ks)"
    using Cons.prems(1) keep by (simp add: map_of_map)
  show ?case
    using Cons.IH [OF tl len] hd keep by simp
qed

lemma bool_column_length:
  "well_formed df \<Longrightarrow> map_of (columns df) b = Some (BoolCol keep) \<Longrightarrow>
     length keep = length (index df)"
  by (auto simp: well_formed_def list_all_iff col_length_def dest!: map_of_SomeD)

lemma rows_mask_rows_bool_column:
  assumes "well_formed df" and "map_of (columns df) b = Some (BoolCol keep)"
  shows "rows (mask_rows keep df)
           = filter (\<lambda>(i, cells). map_of cells b = Some (CBool True)) (rows df)"
proof -
  have m: "map_of (map (\<lambda>(n, c). (n, col_cells c)) (columns df)) b = Some (map CBool keep)"
    using assms(2) by (simp add: map_of_map)
  show ?thesis
    using select_rows_of_filter [OF m bool_column_length [OF assms]] rows_mask_rows [OF assms(1)]
    by (simp add: rows_def)
qed

lemma mask_rows_fields [simp]:
  "index_name (mask_rows keep df) = index_name df"
  "map fst (columns (mask_rows keep df)) = map fst (columns df)"
  "index (mask_rows keep df) = select keep (index df)"
  by (simp_all add: mask_rows_def case_prod_unfold o_def)

text \<open>
  Claim C9, as amended.  When \<^verbatim>\<open>trips\<close> has no column \<^verbatim>\<open>bad\<close>, \<open>bad_trips\<close> returns the
  empty frame \<^verbatim>\<open>pd.DataFrame()\<close> and does not raise.  When the column exists and has
  the boolean dtype, \<open>bad_trips\<close> returns a frame with the index name and the columns
  of \<^verbatim>\<open>trips\<close> whose rows are exactly the rows of \<^verbatim>\<open>trips\<close> where \<^verbatim>\<open>bad\<close> is true, in
  their order.  The function is a function of the frame it is given: it modifies no
  table.
\<close>
theorem bad_trips_keeps_the_rows_marked_bad:
  "(map_of (columns trips) ''bad'' = None \<longrightarrow> bad_trips trips = Inr pd_DataFrame)
   \<and> (\<forall>keep. well_formed trips \<and> map_of (columns trips) ''bad'' = Some (BoolCol keep) \<longrightarrow>
         (\<exists>r. bad_trips trips = Inr r
            \<and> index_name r = index_name trips
            \<and> map fst (columns r) = map fst (columns trips)
            \<and> rows r = filter (\<lambda>(i, cells). map_of cells ''bad'' = Some (CBool True))
                         (rows trips)))"
  by (auto simp: bad_trips_def getitem_series_def rows_mask_rows_bool_column)

theorem bad_trips_keeps_the_rows_marked_bad_witness:
  "bad_trips (example_trips\<lparr>columns := [(''tour_id'', IntCol [10, 10, 11])]\<rparr>) = Inr pd_DataFrame
   \<and> (\<exists>r. bad_trips example_trips = Inr r
         \<and> rows r = [(102, [(''tour_id'', CInt 10), (''bad'', CBool True)]),
                      (103, [(''tour_id'', CInt 11), (''bad'', CBool True)])])"
proof -
  let ?t = "example_trips\<lparr>columns := [(''tour_id'', IntCol [10, 10, 11])]\<rparr>"
  have n: "map_of (columns ?t) ''bad'' = None"
    by (simp add: example_trips_def)
  have 1: "bad_trips ?t = Inr pd_DataFrame"
    using bad_trips_keeps_the_rows_marked_bad [of ?t, THEN conjunct1, rule_format, OF n] .
  have b: "well_formed example_trips
           \<and> map_of (columns example_trips) ''bad'' = Some (BoolCol [False, True, True])"
    by (simp add: example_trips_def well_formed_def col_length_def)
  have f: "filter (\<lambda>(i, cells). map_of cells ''bad'' = Some (CBool True)) (rows example_trips)
           = [(102, [(''tour_id'', CInt 10), (''bad'', CBool True)]),
              (103, [(''tour_id'', CInt 11), (''bad'', CBool True)])]"
    by (simp add: example_trips_def rows_def)
  from bad_trips_keeps_the_rows_marked_bad [of example_trips, THEN conjunct2, rule_format, OF b]
  obtain r where "bad_trips example_trips = Inr r"
    and "rows r = filter (\<lambda>(i, cells). map_of cells ''bad'' = Some (CBool True)) (rows example_trips)"
    by blast
  then have 2: "\<exists>r. bad_trips example_trips = Inr r
         \<and> rows r = [(102, [(''tour_id'', CInt 10), (''bad'', CBool True)]),
                      (103, [(''tour_id'', CInt 11), (''bad'', CBool True)])]"
    using f by simp
  show ?thesis
    using 1 2 by (rule conjI)
qed

theorem bad_trips_integer_flags_counterexample:
  "well_formed \<lparr>index_name = Some ''trip_id'', index = [101, 102],
                 columns = [(''bad'', IntCol [0, 1])]\<rparr>
   \<and> bad_trips \<lparr>index_name = Some ''trip_id'', index = [101, 102],
                  columns = [(''bad'', IntCol [0, 1])]\<rparr> = Inl (KeyError ''not in index'')"
  by (simp add: bad_trips_def getitem_series_def well_formed_def col_length_def)

subsection \<open>The traceable entity registry\<close>

lemma select_by_zip:
  "length ys = length xs \<Longrightarrow>
     select (map p ys) xs = map fst (filter (\<lambda>(x, y). p y) (zip xs ys))"
proof (induction xs arbitrary: ys)
  case Nil
  then show ?case by simp
next
  case (Cons x xs)
  then obtain y ys' where "ys = y # ys'" and "length ys' = length xs"
    by (cases ys) auto
  then show ?case
    using Cons.IH [of ys'] by simp
qed

lemma select_rows_of_by_column:
  "map_of cols b = Some cs \<Longrightarrow> length cs = length ids \<Longrightarrow>
     select (map p cs) (rows_of ids cols)
       = filter (\<lambda>(i, cells). \<exists>c. map_of cells b = Some c \<and> p c) (rows_of ids cols)"
proof (induction ids arbitrary: cs cols)
  case Nil
  then show ?case by simp
next
  case (Cons i ids)
  from Cons.prems(2) obtain c cs' where cs: "cs = c # cs'" and len: "length cs' = length ids"
    by (cases cs) auto
  have hd: "map_of (map (\<lambda>(n, cs). (n, hd cs)) cols) b = Some c"
    using Cons.prems(1) cs by (simp add: map_of_map)
  have tl: "map_of (map (\<lambda>(n, cs). (n, tl cs)) cols) b = Some cs'"
    using Cons.prems(1) cs by (simp add: map_of_map)
  show ?case
    using Cons.IH [OF tl len] hd cs by simp
qed

lemma select_rows_of_by_index:
  "select (map p ids) (rows_of ids cols) = filter (\<lambda>(i, cells). p i) (rows_of ids cols)"
  by (induction ids arbitrary: cols) simp_all

lemma int_column_length:
  "well_formed df \<Longrightarrow> map_of (columns df) c = Some (IntCol ns) \<Longrightarrow>
     length ns = length (index df)"
  by (auto simp: well_formed_def list_all_iff col_length_def dest!: map_of_SomeD)

lemma slice_ids_by_column:
  assumes "well_formed df" and "map_of (columns df) c = Some (IntCol ns)"
  shows "\<exists>r. slice_ids df ids (Some c) = Inr r
           \<and> index r = map fst (filter (\<lambda>(t, h). h \<in> set ids) (zip (index df) ns))
           \<and> rows r = filter (\<lambda>(i, cells). \<exists>n. map_of cells c = Some (CInt n) \<and> n \<in> set ids)
                         (rows df)"
proof -
  let ?p = "\<lambda>c. case c of CInt n \<Rightarrow> n \<in> set ids | _ \<Rightarrow> False"
  have len: "length ns = length (index df)"
    by (rule int_column_length [OF assms])
  have m: "map_of (map (\<lambda>(n, c). (n, col_cells c)) (columns df)) c = Some (map CInt ns)"
    using assms(2) by (simp add: map_of_map)
  have k: "map (\<lambda>n. n \<in> set ids) ns = map ?p (map CInt ns)"
    by simp
  have f0: "(\<exists>x. map_of cells c = Some x \<and> ?p x)
            \<longleftrightarrow> (\<exists>n. map_of cells c = Some (CInt n) \<and> n \<in> set ids)"
    for cells :: "(string \<times> cell) list"
  proof
    assume "\<exists>x. map_of cells c = Some x \<and> ?p x"
    then obtain x where "map_of cells c = Some x" and "?p x"
      by blast
    then show "\<exists>n. map_of cells c = Some (CInt n) \<and> n \<in> set ids"
      by (cases x) auto
  next
    assume "\<exists>n. map_of cells c = Some (CInt n) \<and> n \<in> set ids"
    then show "\<exists>x. map_of cells c = Some x \<and> ?p x"
      by auto
  qed
  have f: "(\<lambda>(i, cells). \<exists>x. map_of cells c = Some x \<and> ?p x)
           = (\<lambda>(i :: int, cells). \<exists>n. map_of cells c = Some (CInt n) \<and> n \<in> set ids)"
    by (simp add: fun_eq_iff f0)
  have "rows (mask_rows (map (\<lambda>n. n \<in> set ids) ns) df)
          = filter (\<lambda>(i, cells). \<exists>n. map_of cells c = Some (CInt n) \<and> n \<in> set ids) (rows df)"
    using select_rows_of_by_column [OF m, of "index df" ?p] len rows_mask_rows [OF assms(1)]
    unfolding k f by (simp add: rows_def)
  then show ?thesis
    using assms(2) len by (simp add: slice_ids_def select_by_zip)
qed

lemma slice_ids_by_index:
  assumes "well_formed df"
  shows "\<exists>r. slice_ids df ids None = Inr r
           \<and> rows r = filter (\<lambda>(i, cells). i \<in> set ids) (rows df)"
  using select_rows_of_by_index [of "\<lambda>i. i \<in> set ids" "index df"] rows_mask_rows [OF assms]
  by (simp add: slice_ids_def rows_def)

text \<open>
  Claim C1.  Let \<open>df\<close> be a frame whose columns are as long as its index.  If the
  dataset is traceable and not the root, its frame has an index name, the join found
  for it is the column \<open>ref_col\<close> naming the index of the registered dataset
  \<open>ref_table\<close> (\<^verbatim>\<open>household_id\<close> and \<^verbatim>\<open>households\<close> in the claim) and that column holds the
  ids \<open>fk\<close>, then the registration returns and the trace set recorded for the dataset
  is exactly the sequence of its index labels at the rows whose \<open>ref_col\<close> value is in
  the trace set of \<open>ref_table\<close>.  Slicing \<open>df\<close> by a named integer column keeps exactly
  the rows whose value in that column is among the given ids, and slicing with no
  column keeps exactly the rows whose index label is among the given ids.
\<close>

theorem trace_propagation:
  assumes "well_formed df"
  shows "(table_name \<in> set (traceable_tables tr) \<and> table_name \<noteq> root_table tr
          \<and> index_name df \<noteq> None \<and> find_ref_col tr df = Some (ref_col, ref_table)
          \<and> map_of (columns df) ref_col = Some (IntCol fk) \<longrightarrow>
            (\<exists>tr'. register_traceable_table tr table_name df = Inr tr'
               \<and> traceable_table_ids tr' table_name
                   = map fst (filter (\<lambda>(t, h). h \<in> set (traceable_table_ids tr ref_table))
                                (zip (index df) fk))))
       \<and> (\<forall>ids c ns. map_of (columns df) c = Some (IntCol ns) \<longrightarrow>
            (\<exists>r. slice_ids df ids (Some c) = Inr r
               \<and> rows r = filter (\<lambda>(i, cells). \<exists>n. map_of cells c = Some (CInt n) \<and> n \<in> set ids)
                            (rows df)))
       \<and> (\<forall>ids. \<exists>r. slice_ids df ids None = Inr r
               \<and> rows r = filter (\<lambda>(i, cells). i \<in> set ids) (rows df))"
proof -
  have 1: "\<exists>tr'. register_traceable_table tr table_name df = Inr tr'
               \<and> traceable_table_ids tr' table_name
                   = map fst (filter (\<lambda>(t, h). h \<in> set (traceable_table_ids tr ref_table))
                                (zip (index df) fk))"
    if h: "table_name \<in> set (traceable_tables tr)" "table_name \<noteq> root_table tr"
      "index_name df \<noteq> None" "find_ref_col tr df = Some (ref_col, ref_table)"
      "map_of (columns df) ref_col = Some (IntCol fk)"
  proof -
    from slice_ids_by_column [OF assms h(5), of "traceable_table_ids tr ref_table"]
    obtain r where "slice_ids df (traceable_table_ids tr ref_table) (Some ref_col) = Inr r"
      and "index r = map fst (filter (\<lambda>(t, h). h \<in> set (traceable_table_ids tr ref_table))
                                (zip (index df) fk))"
      by blast
    then show ?thesis
      using h by (auto simp: register_traceable_table_def no_join_path_def)
  qed
  show ?thesis
    using 1 slice_ids_by_column [OF assms] slice_ids_by_index [OF assms] by blast
qed

theorem trace_propagation_witness:
  "register_traceable_table (new_tracing [''households'', ''tours''] [3]) ''households''
       households_df = Inr (registered_households [3])
   \<and> (\<exists>tr'. register_traceable_table (registered_households [3]) ''tours'' (tours_df [1, 5, 3])
                = Inr tr' \<and> traceable_table_ids tr' ''tours'' = [12])
   \<and> (\<exists>tr'. register_traceable_table (registered_households [1]) ''tours'' (tours_df [1, 5, 1])
                = Inr tr' \<and> traceable_table_ids tr' ''tours'' = [10, 12])
   \<and> (\<exists>r. slice_ids slice_test_df [1, 3, 6] (Some ''household_id'') = Inr r
            \<and> map fst (rows r) = [11, 13])
   \<and> (\<exists>r. slice_ids slice_test_df [6, 12] None = Inr r \<and> map fst (rows r) = [12])"
proof -
  have 0: "register_traceable_table (new_tracing [''households'', ''tours''] [3]) ''households''
       households_df = Inr (registered_households [3])"
    by (simp add: register_traceable_table_def new_tracing_def households_df_def
          registered_households_def register_index_def Let_def)
  have w: "well_formed (tours_df fk)" if "length fk = 3" for fk
    using that by (simp add: tours_df_def well_formed_def col_length_def)
  have h: "''tours'' \<in> set (traceable_tables (registered_households R))
          \<and> ''tours'' \<noteq> root_table (registered_households R)
          \<and> index_name (tours_df fk) \<noteq> None
          \<and> find_ref_col (registered_households R) (tours_df fk)
              = Some (''household_id'', ''households'')
          \<and> map_of (columns (tours_df fk)) ''household_id'' = Some (IntCol fk)" for R fk
    by (simp add: registered_households_def new_tracing_def tours_df_def find_ref_col_def)
  have 1: "\<exists>tr'. register_traceable_table (registered_households [3]) ''tours'' (tours_df [1, 5, 3])
                = Inr tr' \<and> traceable_table_ids tr' ''tours'' = [12]"
    using trace_propagation [OF w, THEN conjunct1, rule_format, OF _ h, of "[1, 5, 3]" "[3]"]
    by (simp add: registered_households_def tours_df_def)
  have 2: "\<exists>tr'. register_traceable_table (registered_households [1]) ''tours'' (tours_df [1, 5, 1])
                = Inr tr' \<and> traceable_table_ids tr' ''tours'' = [10, 12]"
    using trace_propagation [OF w, THEN conjunct1, rule_format, OF _ h, of "[1, 5, 1]" "[1]"]
    by (simp add: registered_households_def tours_df_def)
  have ws: "well_formed slice_test_df"
    by (simp add: slice_test_df_def well_formed_def col_length_def)
  have c: "map_of (columns slice_test_df) ''household_id'' = Some (IntCol [1, 2, 3])"
    by (simp add: slice_test_df_def)
  have r: "rows slice_test_df
            = [(11, [(''household_id'', CInt 1)]), (12, [(''household_id'', CInt 2)]),
               (13, [(''household_id'', CInt 3)])]"
    by (simp add: slice_test_df_def rows_def)
  have 3: "\<exists>r. slice_ids slice_test_df [1, 3, 6] (Some ''household_id'') = Inr r
            \<and> map fst (rows r) = [11, 13]"
    using trace_propagation [OF ws, THEN conjunct2, THEN conjunct1, rule_format, OF c, of "[1, 3, 6]"]
    by (auto simp: r)
  have 4: "\<exists>r. slice_ids slice_test_df [6, 12] None = Inr r \<and> map fst (rows r) = [12]"
    using trace_propagation [OF ws, THEN conjunct2, THEN conjunct2, rule_format, of "[6, 12]"]
    by (auto simp: r)
  show ?thesis
    using 0 1 2 3 4 by blast
qed

lemma no_join_path_fields [simp]:
  "traceable_tables (no_join_path tr t ds) = traceable_tables tr"
  "root_table (no_join_path tr t ds) = root_table tr"
  "root_ids (no_join_path tr t ds) = root_ids tr"
  "traceable_table_indexes (no_join_path tr t ds) = traceable_table_indexes tr"
  "traceable_table_ids (no_join_path tr t ds) = (traceable_table_ids tr)(t := [])"
  "diagnostics (no_join_path tr t ds) = diagnostics tr @ ds"
  by (simp_all add: no_join_path_def)

lemma find_ref_col_no_join_path [simp]:
  "find_ref_col (no_join_path tr t ds) df = find_ref_col tr df"
  by (simp add: find_ref_col_def)


lemma register_not_traceable:
  "table_name \<notin> set (traceable_tables tr) \<Longrightarrow>
     register_traceable_table tr table_name df
       = Inr (tr\<lparr>diagnostics := diagnostics tr @ [NotTraceable table_name]\<rparr>)"
  by (simp add: register_traceable_table_def)

lemma register_no_index_name:
  "table_name \<in> set (traceable_tables tr) \<Longrightarrow> index_name df = None \<Longrightarrow>
     register_traceable_table tr table_name df
       = Inr (no_join_path tr table_name [NoIndexName table_name])"
  by (simp add: register_traceable_table_def)

lemma register_root_absent:
  "table_name \<in> set (traceable_tables tr) \<Longrightarrow> index_name df = Some idx \<Longrightarrow>
   table_name = root_table tr \<Longrightarrow> filter (\<lambda>h. h \<in> set (index df)) (root_ids tr) = [] \<Longrightarrow>
     register_traceable_table tr table_name df
       = Inr (no_join_path tr table_name
                (if root_ids tr = [] then [NoRootIds table_name]
                 else map RootNotInDataframe (filter (\<lambda>h. h \<notin> set (index df)) (root_ids tr))))"
  by (simp add: register_traceable_table_def Let_def)

lemma register_root_present:
  "table_name \<in> set (traceable_tables tr) \<Longrightarrow> index_name df = Some idx \<Longrightarrow>
   table_name = root_table tr \<Longrightarrow> filter (\<lambda>h. h \<in> set (index df)) (root_ids tr) \<noteq> [] \<Longrightarrow>
     register_traceable_table tr table_name df
       = Inr (tr\<lparr>traceable_table_indexes :=
                    register_index idx table_name (traceable_table_indexes tr),
                  traceable_table_ids :=
                    (traceable_table_ids tr)
                      (table_name := filter (\<lambda>h. h \<in> set (index df)) (root_ids tr)),
                  diagnostics := diagnostics tr
                    @ map RootNotInDataframe (filter (\<lambda>h. h \<notin> set (index df)) (root_ids tr))\<rparr>)"
  by (simp add: register_traceable_table_def Let_def)

lemma register_no_registered_table:
  "table_name \<in> set (traceable_tables tr) \<Longrightarrow> index_name df = Some idx \<Longrightarrow>
   table_name \<noteq> root_table tr \<Longrightarrow> find_ref_col tr df = None \<Longrightarrow>
     register_traceable_table tr table_name df
       = Inr (no_join_path tr table_name [NoRegisteredTable table_name idx])"
  by (simp add: register_traceable_table_def)

lemma find_ref_col_column:
  "find_ref_col tr df = Some (c, t) \<Longrightarrow> \<exists>cl. map_of (columns df) c = Some cl"
  by (auto simp: find_ref_col_def find_Some_iff)

lemma register_no_rows:
  "table_name \<in> set (traceable_tables tr) \<Longrightarrow> index_name df = Some idx \<Longrightarrow>
   table_name \<noteq> root_table tr \<Longrightarrow> find_ref_col tr df = Some (c, t) \<Longrightarrow>
   map_of (columns df) c = Some cl \<Longrightarrow>
   select (isin cl (traceable_table_ids tr t)) (index df) = [] \<Longrightarrow>
     register_traceable_table tr table_name df
       = Inr (no_join_path tr table_name [NoRowsWith table_name c])"
  by (simp add: register_traceable_table_def slice_ids_def mask_rows_def)

lemma register_sliced:
  "table_name \<in> set (traceable_tables tr) \<Longrightarrow> index_name df = Some idx \<Longrightarrow>
   table_name \<noteq> root_table tr \<Longrightarrow> find_ref_col tr df = Some (c, t) \<Longrightarrow>
   map_of (columns df) c = Some cl \<Longrightarrow>
   select (isin cl (traceable_table_ids tr t)) (index df) \<noteq> [] \<Longrightarrow>
     register_traceable_table tr table_name df
       = Inr (tr\<lparr>traceable_table_indexes :=
                    register_index idx table_name (traceable_table_indexes tr),
                  traceable_table_ids :=
                    (traceable_table_ids tr)
                      (table_name := select (isin cl (traceable_table_ids tr t)) (index df))\<rparr>)"
  by (simp add: register_traceable_table_def slice_ids_def mask_rows_def)

lemma register_cases:
  obtains (not_traceable) "table_name \<notin> set (traceable_tables tr)"
  | (no_index_name) "table_name \<in> set (traceable_tables tr)" "index_name df = None"
  | (root_absent) idx where "table_name \<in> set (traceable_tables tr)" "index_name df = Some idx"
      "table_name = root_table tr" "filter (\<lambda>h. h \<in> set (index df)) (root_ids tr) = []"
  | (root_present) idx where "table_name \<in> set (traceable_tables tr)" "index_name df = Some idx"
      "table_name = root_table tr" "filter (\<lambda>h. h \<in> set (index df)) (root_ids tr) \<noteq> []"
  | (no_registered_table) idx where "table_name \<in> set (traceable_tables tr)"
      "index_name df = Some idx" "table_name \<noteq> root_table tr" "find_ref_col tr df = None"
  | (no_rows) idx c t cl where "table_name \<in> set (traceable_tables tr)"
      "index_name df = Some idx" "table_name \<noteq> root_table tr"
      "find_ref_col tr df = Some (c, t)" "map_of (columns df) c = Some cl"
      "select (isin cl (traceable_table_ids tr t)) (index df) = []"
  | (sliced) idx c t cl where "table_name \<in> set (traceable_tables tr)"
      "index_name df = Some idx" "table_name \<noteq> root_table tr"
      "find_ref_col tr df = Some (c, t)" "map_of (columns df) c = Some cl"
      "select (isin cl (traceable_table_ids tr t)) (index df) \<noteq> []"
proof (cases "table_name \<in> set (traceable_tables tr)")
  case False
  then show ?thesis by (rule not_traceable)
next
  case tt: True
  show ?thesis
  proof (cases "index_name df")
    case None
    with tt show ?thesis by (rule no_index_name)
  next
    case (Some idx)
    show ?thesis
    proof (cases "table_name = root_table tr")
      case True
      then show ?thesis
        using tt Some root_absent root_present by blast
    next
      case False
      show ?thesis
      proof (cases "find_ref_col tr df")
        case None
        with tt Some False show ?thesis by (rule no_registered_table)
      next
        case (Some p)
        obtain c t where p: "p = (c, t)" by (cases p)
        from find_ref_col_column [of tr df c t] Some p obtain cl
          where "map_of (columns df) c = Some cl" by auto
        then show ?thesis
          using tt \<open>index_name df = Some idx\<close> False Some p sliced no_rows by blast
      qed
    qed
  qed
qed

lemma register_traceable_table_total:
  "\<exists>tr'. register_traceable_table tr table_name df = Inr tr'"
  by (rule register_cases [where table_name = table_name and tr = tr and df = df])
    (simp_all add: register_not_traceable register_no_index_name register_root_absent
       register_root_present register_no_registered_table register_no_rows register_sliced)








subsection \<open>The composite log step\<close>

lemma select_unmarked_set:
  "set (select (map Not (duplicated_from seen xs)) xs) = set xs - set seen"
  by (induction xs arbitrary: seen) auto

lemma select_unmarked_distinct:
  "distinct (select (map Not (duplicated_from seen xs)) xs)"
  by (induction xs arbitrary: seen) (auto simp: select_unmarked_set)

lemma select_unmarked_first:
  "length cs = length xs \<Longrightarrow>
     map_of (zip (select (map Not (duplicated_from seen xs)) xs)
                 (select (map Not (duplicated_from seen xs)) cs)) l
       = (if l \<in> set seen then None else map_of (zip xs cs) l)"
proof (induction xs arbitrary: cs seen)
  case Nil
  then show ?case by simp
next
  case (Cons x xs)
  then obtain c cs' where cs: "cs = c # cs'" and len: "length cs' = length xs"
    by (cases cs) auto
  show ?case
    using Cons.IH [OF len, of "x # seen"] cs by auto
qed

lemma remdups_snoc:
  "remdups (ys @ [x]) = filter (\<lambda>y. y \<noteq> x) (remdups ys) @ [x]"
  by (induction ys) auto

lemma select_unmarked_order:
  "select (map Not (duplicated_from seen xs)) xs
     = filter (\<lambda>x. x \<notin> set seen) (rev (remdups (rev xs)))"
proof (induction xs arbitrary: seen)
  case Nil
  then show ?case by simp
next
  case (Cons x xs)
  have "filter (\<lambda>y. y \<notin> set seen) (rev (remdups (rev (x # xs))))
          = filter (\<lambda>y. y \<notin> set seen) (x # filter (\<lambda>y. y \<noteq> x) (rev (remdups (rev xs))))"
    by (simp add: remdups_snoc rev_filter)
  also have "\<dots> = (if x \<in> set seen then [] else [x])
                  @ filter (\<lambda>y. y \<notin> set (x # seen)) (rev (remdups (rev xs)))"
    by (auto intro: filter_cong)
  finally show ?case
    using Cons.IH [of "x # seen"] by simp
qed

lemma select_unmarked_length:
  "length cs = length xs \<Longrightarrow>
     length (select (map Not (duplicated_from seen xs)) cs)
       = length (select (map Not (duplicated_from seen xs)) xs)"
proof (induction xs arbitrary: cs seen)
  case Nil
  then show ?case by simp
next
  case (Cons x xs)
  then obtain c cs' where cs: "cs = c # cs'" and len: "length cs' = length xs"
    by (cases cs) auto
  show ?case
    using Cons.IH [OF len, of "x # seen"] cs by simp
qed

lemma drop_duplicated_labels:
  "distinct (frame_labels (drop_duplicated lf))"
  "set (frame_labels (drop_duplicated lf)) = set (frame_labels lf)"
  "frame_labels (drop_duplicated lf) = rev (remdups (rev (frame_labels lf)))"
  by (simp_all add: drop_duplicated_def duplicated_def Let_def select_unmarked_distinct
        select_unmarked_set select_unmarked_order)

lemma drop_duplicated_first:
  assumes "map_of (frame_columns lf) n = Some cells"
    and "length cells = length (frame_labels lf)"
  shows "\<exists>cells'. map_of (frame_columns (drop_duplicated lf)) n = Some cells'
           \<and> length cells' = length (frame_labels (drop_duplicated lf))
           \<and> map_of (zip (frame_labels (drop_duplicated lf)) cells')
               = map_of (zip (frame_labels lf) cells)"
proof -
  let ?u = "map Not (duplicated (frame_labels lf))"
  have "map_of (frame_columns (drop_duplicated lf)) n = Some (select ?u cells)"
    using assms(1) by (simp add: drop_duplicated_def Let_def map_of_map)
  moreover have "map_of (zip (frame_labels (drop_duplicated lf)) (select ?u cells))
               = map_of (zip (frame_labels lf) cells)"
    using select_unmarked_first [OF assms(2), of "[]"]
    by (simp add: drop_duplicated_def Let_def duplicated_def fun_eq_iff)
  moreover have "length (select ?u cells) = length (frame_labels (drop_duplicated lf))"
    using select_unmarked_length [OF assms(2), of "[]"]
    by (simp add: drop_duplicated_def Let_def duplicated_def)
  ultimately show ?thesis
    by blast
qed

lemma union_labels_distinct:
  "distinct acc \<Longrightarrow> \<forall>ls \<in> set lss. distinct ls \<Longrightarrow> distinct (union_labels acc lss)"
proof (induction lss arbitrary: acc)
  case Nil
  then show ?case by simp
next
  case (Cons ls lss)
  have "distinct (acc @ filter (\<lambda>l. l \<notin> set acc) ls)"
    using Cons.prems by auto
  then show ?case
    using Cons.IH Cons.prems(2) by simp
qed

text \<open>The concatenation does not drop a repeated label by itself: the index of a single
  frame is kept as it is.\<close>

lemma pd_concat_single:
  "pd_concat series [(mode, lf)] = Inr c \<Longrightarrow> composite_index c = frame_labels lf"
  by (auto simp: pd_concat_def)

text \<open>Frames that have each label once are concatenated, and the result has each label
  once.\<close>

lemma pd_concat_distinct:
  assumes "d \<noteq> []" and "\<forall>(mode, lf) \<in> set d. distinct (frame_labels lf)"
  shows "\<exists>c. pd_concat series d = Inr c \<and> distinct (composite_index c)"
proof -
  let ?ixs = "map (\<lambda>(mode, lf). frame_labels lf) d"
  have all: "\<forall>ix \<in> set ?ixs. distinct ix"
    using assms(2) by auto
  from assms(1) have "?ixs \<noteq> []"
    by simp
  then have "hd ?ixs \<in> set ?ixs"
    by (rule hd_in_set)
  with all have hd: "distinct (hd ?ixs)"
    by blast
  have ex: "\<not> list_ex (\<lambda>ix. \<not> distinct ix) ?ixs"
    using all by (simp add: list_ex_iff)
  have un: "distinct (union_labels [] ?ixs)"
    using all by (simp add: union_labels_distinct)
  show ?thesis
    using assms(1) hd ex un by (simp add: pd_concat_def Let_def)
qed

lemma load_logs_modes:
  "load_logs fs ad log_name ic names modes = Inr d \<Longrightarrow>
     map fst d = filter (\<lambda>mode. fs (log_path ad mode log_name) \<noteq> None) modes"
  by (induction modes arbitrary: d) (auto split: option.splits sum.splits)

lemma load_logs_frames:
  "load_logs fs ad log_name ic names modes = Inr d \<Longrightarrow> (mode, lf) \<in> set d \<Longrightarrow>
     \<exists>content. fs (log_path ad mode log_name) = Some content
        \<and> read_log content ic names = Inr lf"
  by (induction modes arbitrary: d) (auto split: option.splits sum.splits)

lemma load_logs_nothing:
  "list_all (\<lambda>mode. fs (log_path ad mode log_name) = None) modes \<Longrightarrow>
     load_logs fs ad log_name ic names modes = Inr []"
  by (induction modes) auto

lemma load_logs_nonempty:
  "load_logs fs ad log_name ic names modes = Inr d \<Longrightarrow>
     d \<noteq> [] \<longleftrightarrow> list_ex (\<lambda>mode. fs (log_path ad mode log_name) \<noteq> None) modes"
  using load_logs_modes [of fs ad log_name ic names modes d]
  by (metis (mono_tags, lifting) filter_empty_conv list_ex_iff map_is_Nil_conv)

lemma map_of_filter_key:
  "map_of (filter (\<lambda>(k, v). k \<noteq> x) xs) n = (if n = x then None else map_of xs n)"
  by (induction xs) auto

lemma read_log_Inr:
  assumes "read_log content ic names = Inr lf"
  shows "\<exists>table labels. content = Inr table \<and> map_of table ic = Some labels
           \<and> frame_labels lf = rev (remdups (rev labels))
           \<and> distinct (frame_labels lf) \<and> set (frame_labels lf) = set labels
           \<and> map fst (frame_columns lf) = names
           \<and> (\<forall>n cells. n \<in> set names \<and> map_of table n = Some cells
                  \<and> length cells = length labels \<longrightarrow>
                 (\<exists>cells'. map_of (frame_columns lf) n = Some cells'
                    \<and> length cells' = length (frame_labels lf)
                    \<and> map_of (zip (frame_labels lf) cells') = map_of (zip labels cells)))"
proof -
  from assms obtain table l1 l2 where c: "content = Inr table"
    and s: "set_index ic table = Inr l1" and g: "getitems names l1 = Inr l2"
    and d: "lf = drop_duplicated l2"
    by (auto simp: read_log_def split: sum.splits)
  from s obtain labels where lab: "map_of table ic = Some labels"
    and l1: "l1 = \<lparr>frame_labels = labels,
                     frame_columns = filter (\<lambda>(n, cells). n \<noteq> ic) table\<rparr>"
    by (auto simp: set_index_def split: option.splits)
  from g have all: "\<forall>n \<in> set names. map_of (frame_columns l1) n \<noteq> None"
    and l2: "l2 = l1\<lparr>frame_columns := map (\<lambda>n. (n, the (map_of (frame_columns l1) n))) names\<rparr>"
    by (auto simp: getitems_def find_None_iff split: option.splits)
  have labels2: "frame_labels l2 = labels"
    by (simp add: l2 l1)
  have names: "map fst (frame_columns lf) = names"
    by (simp add: d drop_duplicated_def Let_def l2 o_def case_prod_unfold)
  have first: "\<exists>cells'. map_of (frame_columns lf) n = Some cells'
                    \<and> length cells' = length (frame_labels lf)
                    \<and> map_of (zip (frame_labels lf) cells') = map_of (zip labels cells)"
    if n: "n \<in> set names" and t: "map_of table n = Some cells"
      and len: "length cells = length labels" for n cells
  proof -
    from all n obtain cs where cs: "map_of (frame_columns l1) n = Some cs"
      by auto
    from cs have "map_of table n = Some cs"
      by (simp add: l1 map_of_filter_key split: if_splits)
    with t have "cs = cells"
      by simp
    have "map_of (frame_columns l2) n = Some cells"
      using n cs \<open>cs = cells\<close> by (simp add: l2 map_of_map_restrict restrict_map_def o_def)
    then show ?thesis
      using drop_duplicated_first [of l2 n cells] len labels2 by (simp add: d)
  qed
  show ?thesis
    using c lab names first drop_duplicated_labels [of l2] labels2 d by auto
qed

lemma log_path_is_no_output:
  "log_path ad mode log_name \<noteq> combined_timing_path ad tag"
  "log_path ad mode log_name \<noteq> combined_mem_path ad tag"
  by (simp_all add: log_path_def combined_timing_path_def combined_mem_path_def)

lemma combined_paths_differ:
  "combined_timing_path ad tag \<noteq> combined_mem_path ad tag"
  by (simp add: combined_timing_path_def combined_mem_path_def)

lemma load_logs_nonempty':
  "load_logs fs ad log_name ic names modes = Inr d \<Longrightarrow> d \<noteq> [] \<longleftrightarrow> log_exists fs ad log_name modes"
  unfolding log_exists_def by (rule load_logs_nonempty)

lemma load_logs_nothing':
  "\<not> log_exists fs ad log_name modes \<Longrightarrow> load_logs fs ad log_name ic names modes = Inr []"
  unfolding log_exists_def by (rule load_logs_nothing) (simp add: list_all_iff list_ex_iff)

lemma load_logs_distinct:
  assumes "load_logs fs ad log_name ic names modes = Inr d"
  shows "\<forall>(mode, lf) \<in> set d. distinct (frame_labels lf)"
proof -
  have "distinct (frame_labels lf)" if "(mode, lf) \<in> set d" for mode lf
  proof -
    from load_logs_frames [OF assms that] obtain content
      where "read_log content ic names = Inr lf"
      by blast
    from read_log_Inr [OF this] show ?thesis
      by blast
  qed
  then show ?thesis
    by blast
qed

lemma write_combined_loaded:
  assumes "load_logs fs ad log_name ic names modes = Inr d"
  shows "(d = [] \<and> write_combined series p d = Inr [])
         \<or> (\<exists>c. d \<noteq> [] \<and> pd_concat series d = Inr c \<and> distinct (composite_index c)
                \<and> write_combined series p d = Inr [(p, c)])"
proof (cases "d = []")
  case True
  then show ?thesis
    by (simp add: write_combined_def)
next
  case False
  from pd_concat_distinct [OF False load_logs_distinct [OF assms], of series]
  obtain c where "pd_concat series d = Inr c" and "distinct (composite_index c)"
    by blast
  then show ?thesis
    using False by (auto simp: write_combined_def)
qed

lemma composite_logs_written:
  assumes "composite_logs fs compares ad tag = (written, r)" and "(p, c) \<in> set written"
  shows "(p = combined_timing_path ad tag
           \<and> (\<exists>d. load_logs fs ad ''timing_log.csv'' ''model_name'' [''seconds''] compares = Inr d
                  \<and> d \<noteq> [] \<and> pd_concat True d = Inr c))
         \<or> (p = combined_mem_path ad tag
           \<and> (\<exists>d. load_logs fs ad ''mem.csv'' ''event'' [''rss'', ''full_rss'', ''uss''] compares = Inr d
                  \<and> d \<noteq> [] \<and> pd_concat False d = Inr c))"
  using assms
  by (auto simp: composite_logs_def write_combined_def split: sum.splits if_splits)

lemma composite_logs_returned:
  assumes "composite_logs fs compares ad tag = (written, Inr u)"
  shows "map fst written
           = (if log_exists fs ad ''timing_log.csv'' compares then [combined_timing_path ad tag] else [])
             @ (if log_exists fs ad ''mem.csv'' compares then [combined_mem_path ad tag] else [])"
  using assms
  by (auto simp: composite_logs_def write_combined_def load_logs_nonempty' [symmetric]
        split: sum.splits if_splits)

lemma composite_logs_nothing:
  assumes "\<not> log_exists fs ad ''timing_log.csv'' compares" and "\<not> log_exists fs ad ''mem.csv'' compares"
  shows "composite_logs fs compares ad tag = ([], Inr ())"
  using assms by (simp add: composite_logs_def write_combined_def load_logs_nothing')

text \<open>The step raises only what reading a log raises: the concatenation of the frames
  loaded never fails.\<close>

lemma composite_logs_raises:
  assumes "composite_logs fs compares ad tag = (written, Inl e)"
  shows "load_logs fs ad ''timing_log.csv'' ''model_name'' [''seconds''] compares = Inl e
         \<or> load_logs fs ad ''mem.csv'' ''event'' [''rss'', ''full_rss'', ''uss''] compares = Inl e"
proof (cases "load_logs fs ad ''timing_log.csv'' ''model_name'' [''seconds''] compares")
  case (Inl e')
  then show ?thesis
    using assms by (simp add: composite_logs_def)
next
  case (Inr timings)
  from write_combined_loaded [OF Inr, of True "combined_timing_path ad tag"]
  obtain w1 where w1: "write_combined True (combined_timing_path ad tag) timings = Inr w1"
    by blast
  show ?thesis
  proof (cases "load_logs fs ad ''mem.csv'' ''event'' [''rss'', ''full_rss'', ''uss''] compares")
    case (Inl e')
    then show ?thesis
      using assms Inr w1 by (simp add: composite_logs_def)
  next
    case mems: (Inr mems)
    from write_combined_loaded [OF mems, of False "combined_mem_path ad tag"]
    obtain w2 where "write_combined False (combined_mem_path ad tag) mems = Inr w2"
      by blast
    then show ?thesis
      using assms Inr w1 mems by (simp add: composite_logs_def)
  qed
qed

lemma load_logs_first_occurrences:
  assumes "load_logs fs ad log_name ic names modes = Inr d" and "(mode, lf) \<in> set d"
  shows "\<exists>table. fs (log_path ad mode log_name) = Some (Inr table)
               \<and> keeps_first_occurrences table ic names lf"
proof -
  from load_logs_frames [OF assms] obtain content
    where c: "fs (log_path ad mode log_name) = Some content"
      and r: "read_log content ic names = Inr lf"
    by blast
  from read_log_Inr [OF r] obtain table where "content = Inr table"
    and "keeps_first_occurrences table ic names lf"
    unfolding keeps_first_occurrences_def by blast
  then show ?thesis
    using c by blast
qed

lemma written_log:
  assumes "load_logs fs ad log_name ic names compares = Inr d"
    and "d \<noteq> []" and "pd_concat series d = Inr c"
  shows "distinct (composite_index c)
         \<and> (\<exists>d. load_logs fs ad log_name ic names compares = Inr d
               \<and> pd_concat series d = Inr c
               \<and> map fst d = filter (\<lambda>mode. fs (log_path ad mode log_name) \<noteq> None) compares
               \<and> (\<forall>mode lf. (mode, lf) \<in> set d \<longrightarrow>
                     (\<exists>table. fs (log_path ad mode log_name) = Some (Inr table)
                         \<and> keeps_first_occurrences table ic names lf)))"
proof -
  from pd_concat_distinct [OF assms(2) load_logs_distinct [OF assms(1)], of series] assms(3)
  have "distinct (composite_index c)"
    by simp
  moreover have "\<forall>mode lf. (mode, lf) \<in> set d \<longrightarrow>
                     (\<exists>table. fs (log_path ad mode log_name) = Some (Inr table)
                         \<and> keeps_first_occurrences table ic names lf)"
    using load_logs_first_occurrences [OF assms(1)] by blast
  ultimately show ?thesis
    using assms(1,3) load_logs_modes [OF assms(1)] by blast
qed

text \<open>
  Claim C10.  Let the context hold the four keys, with \<open>compares\<close> the modes selected.
  A combined timing log that the step writes is the concatenation of the frames the
  loop over the selected modes has loaded from the timing logs, one frame for each
  selected mode whose timing log exists, in the order of the modes; each of these
  frames is its log indexed by \<open>model_name\<close> with the rows of a repeated label
  dropped, the first occurrence kept: its labels are the labels of the log in the
  order of their first occurrence, each once, and the cell at a label is the cell of
  the first row of the log that has the label; and the index of the combined log has
  no label twice.  The same holds of the combined memory log, the memory logs and
  \<open>event\<close>.  The concatenation does not drop a repeated label itself (see
  \<open>pd_concat_single\<close>), and it never fails on the frames loaded: the step raises
  only what reading a log raises.  The combined timing log is written only if the
  timing log of some selected mode exists, and the combined memory log only if the
  memory log of some selected mode exists; with no log of either kind the step writes
  nothing and returns; and when the step returns, it has written exactly the combined
  logs whose inputs exist, the timing log first.
\<close>

theorem composite_log_step:
  assumes "step_inputs formatter ctx = Inr (compares, ad, tag)"
    and "run_step formatter ctx fs = (written, r)"
  shows "(\<forall>c. (combined_timing_path ad tag, c) \<in> set written \<longrightarrow>
            distinct (composite_index c)
            \<and> (\<exists>d. load_logs fs ad ''timing_log.csv'' ''model_name'' [''seconds''] compares = Inr d
                  \<and> pd_concat True d = Inr c
                  \<and> map fst d
                      = filter (\<lambda>mode. fs (log_path ad mode ''timing_log.csv'') \<noteq> None) compares
                  \<and> (\<forall>mode lf. (mode, lf) \<in> set d \<longrightarrow>
                        (\<exists>table. fs (log_path ad mode ''timing_log.csv'') = Some (Inr table)
                            \<and> keeps_first_occurrences table ''model_name'' [''seconds''] lf))))
       \<and> (\<forall>c. (combined_mem_path ad tag, c) \<in> set written \<longrightarrow>
            distinct (composite_index c)
            \<and> (\<exists>d. load_logs fs ad ''mem.csv'' ''event'' [''rss'', ''full_rss'', ''uss''] compares
                     = Inr d
                  \<and> pd_concat False d = Inr c
                  \<and> map fst d = filter (\<lambda>mode. fs (log_path ad mode ''mem.csv'') \<noteq> None) compares
                  \<and> (\<forall>mode lf. (mode, lf) \<in> set d \<longrightarrow>
                        (\<exists>table. fs (log_path ad mode ''mem.csv'') = Some (Inr table)
                            \<and> keeps_first_occurrences table ''event''
                                 [''rss'', ''full_rss'', ''uss''] lf))))
       \<and> (\<forall>p c. (p, c) \<in> set written \<longrightarrow>
            p = combined_timing_path ad tag \<or> p = combined_mem_path ad tag)
       \<and> ((\<exists>c. (combined_timing_path ad tag, c) \<in> set written) \<longrightarrow>
            log_exists fs ad ''timing_log.csv'' compares)
       \<and> ((\<exists>c. (combined_mem_path ad tag, c) \<in> set written) \<longrightarrow>
            log_exists fs ad ''mem.csv'' compares)
       \<and> (\<not> log_exists fs ad ''timing_log.csv'' compares \<and> \<not> log_exists fs ad ''mem.csv'' compares \<longrightarrow>
            written = [] \<and> r = Inr ())
       \<and> (r = Inr () \<longrightarrow>
            map fst written
              = (if log_exists fs ad ''timing_log.csv'' compares
                 then [combined_timing_path ad tag] else [])
                @ (if log_exists fs ad ''mem.csv'' compares
                   then [combined_mem_path ad tag] else []))
       \<and> (\<forall>e. r = Inl e \<longrightarrow>
            load_logs fs ad ''timing_log.csv'' ''model_name'' [''seconds''] compares = Inl e
            \<or> load_logs fs ad ''mem.csv'' ''event'' [''rss'', ''full_rss'', ''uss''] compares = Inl e)"
proof -
  have c: "composite_logs fs compares ad tag = (written, r)"
    using assms by (simp add: run_step_def)
  have t: "\<exists>d. load_logs fs ad ''timing_log.csv'' ''model_name'' [''seconds''] compares = Inr d
              \<and> d \<noteq> [] \<and> pd_concat True d = Inr c"
    if "(combined_timing_path ad tag, c) \<in> set written" for c
    using composite_logs_written [OF c that] combined_paths_differ [of ad tag] by auto
  have m: "\<exists>d. load_logs fs ad ''mem.csv'' ''event'' [''rss'', ''full_rss'', ''uss''] compares = Inr d
              \<and> d \<noteq> [] \<and> pd_concat False d = Inr c"
    if "(combined_mem_path ad tag, c) \<in> set written" for c
    using composite_logs_written [OF c that] combined_paths_differ [of ad tag] by auto
  have 1: "distinct (composite_index c)
            \<and> (\<exists>d. load_logs fs ad ''timing_log.csv'' ''model_name'' [''seconds''] compares = Inr d
                  \<and> pd_concat True d = Inr c
                  \<and> map fst d
                      = filter (\<lambda>mode. fs (log_path ad mode ''timing_log.csv'') \<noteq> None) compares
                  \<and> (\<forall>mode lf. (mode, lf) \<in> set d \<longrightarrow>
                        (\<exists>table. fs (log_path ad mode ''timing_log.csv'') = Some (Inr table)
                            \<and> keeps_first_occurrences table ''model_name'' [''seconds''] lf)))"
    if w: "(combined_timing_path ad tag, c) \<in> set written" for c
  proof -
    from t [OF w] obtain d
      where "load_logs fs ad ''timing_log.csv'' ''model_name'' [''seconds''] compares = Inr d"
        and "d \<noteq> []" and "pd_concat True d = Inr c"
      by blast
    then show ?thesis
      by (rule written_log)
  qed
  have 2: "distinct (composite_index c)
            \<and> (\<exists>d. load_logs fs ad ''mem.csv'' ''event'' [''rss'', ''full_rss'', ''uss''] compares
                     = Inr d
                  \<and> pd_concat False d = Inr c
                  \<and> map fst d = filter (\<lambda>mode. fs (log_path ad mode ''mem.csv'') \<noteq> None) compares
                  \<and> (\<forall>mode lf. (mode, lf) \<in> set d \<longrightarrow>
                        (\<exists>table. fs (log_path ad mode ''mem.csv'') = Some (Inr table)
                            \<and> keeps_first_occurrences table ''event''
                                 [''rss'', ''full_rss'', ''uss''] lf)))"
    if w: "(combined_mem_path ad tag, c) \<in> set written" for c
  proof -
    from m [OF w] obtain d
      where "load_logs fs ad ''mem.csv'' ''event'' [''rss'', ''full_rss'', ''uss''] compares = Inr d"
        and "d \<noteq> []" and "pd_concat False d = Inr c"
      by blast
    then show ?thesis
      by (rule written_log)
  qed
  have 3: "p = combined_timing_path ad tag \<or> p = combined_mem_path ad tag"
    if "(p, c) \<in> set written" for p c
    using composite_logs_written [OF c that] by blast
  have 4: "log_exists fs ad ''timing_log.csv'' compares"
    if "(combined_timing_path ad tag, c) \<in> set written" for c
    using t [OF that] load_logs_nonempty' by blast
  have 5: "log_exists fs ad ''mem.csv'' compares"
    if "(combined_mem_path ad tag, c) \<in> set written" for c
    using m [OF that] load_logs_nonempty' by blast
  have 6: "written = [] \<and> r = Inr ()"
    if "\<not> log_exists fs ad ''timing_log.csv'' compares" "\<not> log_exists fs ad ''mem.csv'' compares"
    using composite_logs_nothing [OF that, of tag] c by simp
  have 7: "map fst written
              = (if log_exists fs ad ''timing_log.csv'' compares
                 then [combined_timing_path ad tag] else [])
                @ (if log_exists fs ad ''mem.csv'' compares
                   then [combined_mem_path ad tag] else [])"
    if "r = Inr ()"
    using composite_logs_returned [of fs compares ad tag written "()"] c that by simp
  have 8: "load_logs fs ad ''timing_log.csv'' ''model_name'' [''seconds''] compares = Inl e
            \<or> load_logs fs ad ''mem.csv'' ''event'' [''rss'', ''full_rss'', ''uss''] compares = Inl e"
    if "r = Inl e" for e
    using composite_logs_raises [of fs compares ad tag written e] c that by simp
  show ?thesis
    using 1 2 3 4 5 6 7 8 by blast
qed

theorem composite_log_step_witness:
  "run_step Inr example_ctx Map.empty = ([], Inr ())
   \<and> run_step Inr example_ctx example_fs
       = ([(''arch/combined_timing_log-x.csv'',
            \<lparr>composite_index = [''a'', ''b'', ''c'', ''d''],
             composite_columns =
               [([''sharrow''], [Some ''1.0'', Some ''2.0'', Some ''4.0'', None]),
                ([''legacy''], [None, None, Some ''9.0'', Some ''8.0''])]\<rparr>)],
          Inr ())
   \<and> map fst (fst (run_step Inr example_ctx example_fs)) = [combined_timing_path ''arch'' ''x'']
   \<and> list_all (\<lambda>(p, c). distinct (composite_index c)) (fst (run_step Inr example_ctx example_fs))"
proof -
  let ?modes = "[''compile'', ''sharrow'', ''legacy'']"
  have si: "step_inputs Inr example_ctx = Inr (?modes, ''arch'', ''x'')"
    by (simp add: step_inputs_def example_ctx_def assert_key_has_value_def get_formatted_def)
  have r0: "run_step Inr example_ctx Map.empty
              = (fst (run_step Inr example_ctx Map.empty), snd (run_step Inr example_ctx Map.empty))"
    by simp
  have r1: "run_step Inr example_ctx example_fs
              = (fst (run_step Inr example_ctx example_fs), snd (run_step Inr example_ctx example_fs))"
    by simp
  note t0 = composite_log_step [OF si r0]
  note t1 = composite_log_step [OF si r1]
  have n: "\<not> log_exists Map.empty ''arch'' ''timing_log.csv'' ?modes
           \<and> \<not> log_exists Map.empty ''arch'' ''mem.csv'' ?modes"
    by (simp add: log_exists_def)
  have 1: "run_step Inr example_ctx Map.empty = ([], Inr ())"
    using t0 [THEN conjunct2, THEN conjunct2, THEN conjunct2, THEN conjunct2, THEN conjunct2,
              THEN conjunct1, rule_format, OF n]
    by (simp add: prod_eq_iff)
  have 2: "run_step Inr example_ctx example_fs
       = ([(''arch/combined_timing_log-x.csv'',
            \<lparr>composite_index = [''a'', ''b'', ''c'', ''d''],
             composite_columns =
               [([''sharrow''], [Some ''1.0'', Some ''2.0'', Some ''4.0'', None]),
                ([''legacy''], [None, None, Some ''9.0'', Some ''8.0''])]\<rparr>)],
          Inr ())"
    by code_simp
  have e: "log_exists example_fs ''arch'' ''timing_log.csv'' ?modes
           \<and> \<not> log_exists example_fs ''arch'' ''mem.csv'' ?modes"
    by (simp add: log_exists_def example_fs_def log_path_def)
  have s: "snd (run_step Inr example_ctx example_fs) = Inr ()"
    by (simp add: 2)
  have 3: "map fst (fst (run_step Inr example_ctx example_fs)) = [combined_timing_path ''arch'' ''x'']"
    using t1 [THEN conjunct2, THEN conjunct2, THEN conjunct2, THEN conjunct2, THEN conjunct2,
              THEN conjunct2, THEN conjunct1, rule_format, OF s] e
    by simp
  have 4: "list_all (\<lambda>(p, c). distinct (composite_index c)) (fst (run_step Inr example_ctx example_fs))"
    using t1 [THEN conjunct1] t1 [THEN conjunct2, THEN conjunct1]
      t1 [THEN conjunct2, THEN conjunct2, THEN conjunct1]
    by (fastforce simp: list_all_iff)
  show ?thesis
    using 1 2 3 4 by blast
qed

subsection \<open>The cleanup before the steps\<close>


lemma import_extensions_quiet [simp]:
  "filter (\<lambda>e. is_step_run e \<or> is_file_deletion e) (events (fst (import_extensions env es w)))
     = filter (\<lambda>e. is_step_run e \<or> is_file_deletion e) (events w)"
  by (induction es arbitrary: w) (auto simp: Let_def split: option.splits)

lemma load_settings_quiet [simp]:
  "filter (\<lambda>e. is_step_run e \<or> is_file_deletion e) (events (fst (load_settings env args w)))
     = filter (\<lambda>e. is_step_run e \<or> is_file_deletion e) (events w)"
  by (simp add: load_settings_def Let_def o_def split: sum.splits)

lemma apply_multiprocess_quiet [simp]:
  "filter (\<lambda>e. is_step_run e \<or> is_file_deletion e) (events (apply_multiprocess env args w))
     = filter (\<lambda>e. is_step_run e \<or> is_file_deletion e) (events w)"
  by (simp add: apply_multiprocess_def Let_def split: option.splits)














end
